theory Spec2Isabelle
  imports Main "HOL-Library.AList"
begin

section \<open>Python values, dictionaries and errors\<close>

text \<open>
  The values that travel through the schema and update code are JSON-like Python
  values. A Python \<^verbatim>\<open>dict\<close> with string keys is an association list in insertion
  order: storing under an existing key overwrites in place, storing under a new key
  appends, and \<^verbatim>\<open>del d[k]\<close> raises \<^verbatim>\<open>KeyError\<close> when the key is absent.
\<close>

datatype pyval =
    PNone
  | PBool bool
  | PInt int
  | PStr string
  | PList "pyval list"
  | PDict "(string \<times> pyval) list"

type_synonym pydict = "(string \<times> pyval) list"

datatype error =
    Exception string
  | AttributeError
  | KeyError string
  | TypeError

text \<open>Truth value of a Python object, as tested by \<^verbatim>\<open>if x:\<close>.\<close>

fun truthy :: "pyval \<Rightarrow> bool" where
  "truthy PNone = False"
| "truthy (PBool b) = b"
| "truthy (PInt i) = (i \<noteq> 0)"
| "truthy (PStr s) = (s \<noteq> [])"
| "truthy (PList xs) = (xs \<noteq> [])"
| "truthy (PDict d) = (d \<noteq> [])"

definition dict_get :: "pydict \<Rightarrow> string \<Rightarrow> pyval option" where
  "dict_get d k = map_of d k"

definition dict_has :: "pydict \<Rightarrow> string \<Rightarrow> bool" where
  "dict_has d k = (k \<in> set (map fst d))"

definition dict_set :: "pydict \<Rightarrow> string \<Rightarrow> pyval \<Rightarrow> pydict" where
  "dict_set d k v = AList.update k v d"

definition dict_del :: "pydict \<Rightarrow> string \<Rightarrow> error + pydict" where
  "dict_del d k = (if dict_has d k then Inr (AList.delete k d) else Inl (KeyError k))"

section \<open>The update handler (\<^verbatim>\<open>parasol/solr/update.py\<close>)\<close>

text \<open>
  The client is an external collaborator. What \<^verbatim>\<open>Update\<close> reads from it is its
  \<^verbatim>\<open>update_handler\<close> and its \<^verbatim>\<open>build_url\<close>; what it does to it is one
  \<^verbatim>\<open>make_request\<close> call, recorded here as the request that was made.
\<close>

record client =
  update_handler :: string
  build_url :: "string \<Rightarrow> string"

record request =
  req_method :: string
  req_url :: string
  req_data :: pyval
  req_params :: pydict
  req_headers :: pydict

record Update =
  upd_client :: client
  upd_url :: string
  upd_headers :: pydict
  upd_params :: pydict

definition Update_init :: "client \<Rightarrow> pyval \<Rightarrow> Update" where
  "Update_init c commit_within =
     \<lparr> upd_client = c,
       upd_url = build_url c (update_handler c),
       upd_headers = [(''Content-Type'', PStr ''application/json'')],
       upd_params = [(''commitWithin'', commit_within)] \<rparr>"

text \<open>
  \<^verbatim>\<open>Update.index\<close>. The standard-library \<^verbatim>\<open>urljoin\<close> is a parameter. The result
  is the request handed to \<^verbatim>\<open>client.make_request\<close> (or the error raised before it)
  together with the object after the call. \<open>index_local_params\<close> is lines 15 to 22:
  the local dictionary \<^verbatim>\<open>params\<close>, a copy of \<^verbatim>\<open>self.params\<close>, after the two
  conditional updates. Line 28 then passes \<^verbatim>\<open>params=self.params\<close>.
\<close>

definition index_local_params :: "Update \<Rightarrow> bool \<Rightarrow> pyval \<Rightarrow> error + pydict" where
  "index_local_params self commit commit_within =
     (let params = upd_params self;
          params = (if truthy commit_within
                    then dict_set params ''commitWithin'' commit_within else params)
      in if commit
         then (case dict_del params ''commitWithin'' of
                 Inl e \<Rightarrow> Inl e
               | Inr p \<Rightarrow> Inr (dict_set p ''commit'' (PBool True)))
         else Inr params)"

definition index ::
  "(string \<Rightarrow> string \<Rightarrow> string) \<Rightarrow> Update \<Rightarrow> pyval \<Rightarrow> bool \<Rightarrow> pyval \<Rightarrow> (error + request) \<times> Update"
where
  "index urljoin self docs commit commit_within =
     (case index_local_params self commit commit_within of
        Inl e \<Rightarrow> (Inl e, self)
      | Inr params \<Rightarrow>
          (Inr \<lparr> req_method = ''post'',
                 req_url = urljoin (upd_url self @ ''/'') ''json/docs'',
                 req_data = docs,
                 req_params = upd_params self,
                 req_headers = upd_headers self \<rparr>,
           self))"

section \<open>Schema descriptors (\<^verbatim>\<open>parasol/schema.py\<close>)\<close>

record SolrField =
  sf_type :: pyval
  sf_required :: bool
  sf_multivalued :: bool

definition SolrField_init :: "pyval \<Rightarrow> bool \<Rightarrow> bool \<Rightarrow> SolrField" where
  "SolrField_init fieldtype required multivalued =
     \<lparr> sf_type = fieldtype, sf_required = required, sf_multivalued = multivalued \<rparr>"

definition SolrField_get :: "SolrField \<Rightarrow> pydict" where
  "SolrField_get self =
     [(''type'', sf_type self),
      (''required'', PBool (sf_required self)),
      (''multiValued'', PBool (sf_multivalued self))]"

text \<open>
  \<^verbatim>\<open>__set__\<close> is the hook Python calls when the attribute is assigned through an
  instance of the class that declares the descriptor. Its result is the outcome of the
  assignment together with the descriptor after the call.
\<close>

definition SolrField_set :: "SolrField \<Rightarrow> pyval \<Rightarrow> pyval \<Rightarrow> (error + unit) \<times> SolrField" where
  "SolrField_set self obj val = (Inl AttributeError, self)"

text \<open>\<^verbatim>\<open>SolrTypedField\<close> passes its class attribute \<^verbatim>\<open>field_type\<close> on as the type.\<close>

definition SolrTypedField_init :: "pyval \<Rightarrow> bool \<Rightarrow> bool \<Rightarrow> SolrField" where
  "SolrTypedField_init field_type required multivalued =
     SolrField_init field_type required multivalued"

definition SolrStringField_init :: "bool \<Rightarrow> bool \<Rightarrow> SolrField" where
  "SolrStringField_init required multivalued =
     SolrTypedField_init (PStr ''string'') required multivalued"

record SolrAnalyzer =
  tokenizer :: pyval
  filters :: pyval

definition as_solr_config :: "SolrAnalyzer \<Rightarrow> pydict" where
  "as_solr_config cls =
     [(''tokenizer'', PDict [(''class'', tokenizer cls)]),
      (''filters'', filters cls)]"

record SolrFieldType =
  field_class :: pyval
  analyzer :: SolrAnalyzer

definition SolrFieldType_init :: "pyval \<Rightarrow> SolrAnalyzer \<Rightarrow> SolrFieldType" where
  "SolrFieldType_init fc an = \<lparr> field_class = fc, analyzer = an \<rparr>"

definition SolrFieldType_get :: "SolrFieldType \<Rightarrow> pydict" where
  "SolrFieldType_get self =
     [(''class'', field_class self),
      (''analyzer'', PDict (as_solr_config (analyzer self)))]"

definition SolrFieldType_set ::
  "SolrFieldType \<Rightarrow> pyval \<Rightarrow> pyval \<Rightarrow> (error + unit) \<times> SolrFieldType" where
  "SolrFieldType_set self obj val = (Inl AttributeError, self)"

section \<open>The schema class\<close>

text \<open>
  A \<^verbatim>\<open>SolrSchema\<close> subclass is its \<^verbatim>\<open>__dict__\<close>: the attributes of the class
  body in declaration order. An attribute is a field descriptor, a field-type
  descriptor, or anything else. Python keeps the keys of a dictionary distinct; the
  theorems assume it as \<open>distinct (map fst cls)\<close>.
\<close>

datatype attr =
    Field SolrField
  | FieldType SolrFieldType
  | Other pyval

type_synonym schema_cls = "(string \<times> attr) list"

fun isinstance_SolrField :: "attr \<Rightarrow> bool" where
  "isinstance_SolrField (Field f) = True"
| "isinstance_SolrField a = False"

fun isinstance_SolrFieldType :: "attr \<Rightarrow> bool" where
  "isinstance_SolrFieldType (FieldType t) = True"
| "isinstance_SolrFieldType a = False"

definition get_field_names :: "schema_cls \<Rightarrow> string list" where
  "get_field_names cls =
     map fst (filter (\<lambda>(attr_name, attr_type). isinstance_SolrField attr_type) cls)"

definition get_field_types :: "schema_cls \<Rightarrow> string list" where
  "get_field_types cls =
     map fst (filter (\<lambda>(attr_name, attr_type). isinstance_SolrFieldType attr_type) cls)"

text \<open>
  \<^verbatim>\<open>getattr(cls, name)\<close> finds the attribute in the class dictionary and, for a
  descriptor, returns what its \<^verbatim>\<open>__get__\<close> returns. \<open>kwargs\<close> is the
  \<^verbatim>\<open>**\<close> expansion of the value at a call, which needs a mapping.
\<close>

definition getattr :: "schema_cls \<Rightarrow> string \<Rightarrow> error + pyval" where
  "getattr cls name =
     (case map_of cls name of
        None \<Rightarrow> Inl AttributeError
      | Some (Field f) \<Rightarrow> Inr (PDict (SolrField_get f))
      | Some (FieldType t) \<Rightarrow> Inr (PDict (SolrFieldType_get t))
      | Some (Other v) \<Rightarrow> Inr v)"

fun kwargs :: "pyval \<Rightarrow> error + pydict" where
  "kwargs (PDict d) = Inr d"
| "kwargs v = Inl TypeError"

text \<open>
  Assignment. For an instance \<^verbatim>\<open>obj\<close> of the schema class, Python routes
  \<^verbatim>\<open>obj.name = val\<close> to the \<^verbatim>\<open>__set__\<close> of a descriptor that the class holds
  under that name, and stores the value in the instance otherwise; \<open>Other\<close> stands for
  class attributes without a \<^verbatim>\<open>__set__\<close>. The instance is its \<^verbatim>\<open>__dict__\<close>. The
  result is the outcome, the class and the instance after the assignment.
\<close>

definition instance_setattr ::
  "schema_cls \<Rightarrow> pydict \<Rightarrow> string \<Rightarrow> pyval \<Rightarrow> (error + unit) \<times> schema_cls \<times> pydict"
where
  "instance_setattr cls obj name val =
     (case map_of cls name of
        Some (Field f) \<Rightarrow>
          (case SolrField_set f (PDict obj) val of
             (res, f') \<Rightarrow> (res, AList.update name (Field f') cls, obj))
      | Some (FieldType t) \<Rightarrow>
          (case SolrFieldType_set t (PDict obj) val of
             (res, t') \<Rightarrow> (res, AList.update name (FieldType t') cls, obj))
      | Some (Other v) \<Rightarrow> (Inr (), cls, dict_set obj name val)
      | None \<Rightarrow> (Inr (), cls, dict_set obj name val))"

text \<open>
  \<^verbatim>\<open>cls.name = val\<close> on the class itself is not routed to the descriptor: the schema
  classes have no metaclass of their own, so the class attribute is rebound.
\<close>

definition class_setattr :: "schema_cls \<Rightarrow> string \<Rightarrow> attr \<Rightarrow> (error + unit) \<times> schema_cls" where
  "class_setattr cls name a = (Inr (), AList.update name a cls)"

text \<open>
  The descriptor classes define neither \<^verbatim>\<open>__setattr__\<close> nor \<^verbatim>\<open>__slots__\<close>, so an
  assignment to an attribute of the descriptor object itself stores the value. These
  are \<^verbatim>\<open>descriptor.type = val\<close>, the attribute set on line 20 and read on line 25, and
  \<^verbatim>\<open>descriptor.field_class = val\<close>, set on line 67 and read on line 72.
\<close>

definition SolrField_setattr_type :: "SolrField \<Rightarrow> pyval \<Rightarrow> (error + unit) \<times> SolrField" where
  "SolrField_setattr_type self val = (Inr (), self\<lparr>sf_type := val\<rparr>)"

definition SolrFieldType_setattr_field_class ::
  "SolrFieldType \<Rightarrow> pyval \<Rightarrow> (error + unit) \<times> SolrFieldType" where
  "SolrFieldType_setattr_field_class self val = (Inr (), self\<lparr>field_class := val\<rparr>)"

text \<open>\<open>show_nat n\<close> is the decimal numeral that \<^verbatim>\<open>%d\<close> prints for a length.\<close>

fun show_nat :: "nat \<Rightarrow> string" where
  "show_nat n =
     (if n < 10 then [char_of (48 + n)]
      else show_nat (n div 10) @ [char_of (48 + n mod 10)])"

definition get_configuration :: "'c list \<Rightarrow> error + 'c" where
  "get_configuration subclasses =
     (case subclasses of
        [] \<Rightarrow> Inl (Exception ''No Solr schema configuration found'')
      | c # rest \<Rightarrow>
          if length subclasses > 1
          then Inl (Exception
                 (''Currently only one Solr schema configuration is supported (found ''
                    @ show_nat (length subclasses) @ '')''))
          else Inr c)"

section \<open>Reconciliation of fields and field types\<close>

text \<open>
  The Solr client is external. A run reads one listing from it and then only issues
  calls whose results it ignores, so a run is a function of the class and the listing,
  and its effect is the sequence of calls it made. An error ends the run with the calls
  made so far. The calls to the client are taken to return; a failure of the client
  itself is outside this model. \<^verbatim>\<open>AttrDefault(int, {})\<close> reads a missing counter
  as 0.
\<close>

record remote_field =
  rf_name :: string
  rf_opts :: pydict

datatype schema_call =
    ListFields
  | AddField string pydict
  | ReplaceField string pydict
  | DeleteField string
  | ListFieldTypes
  | AddFieldType pydict
  | ReplaceFieldType pydict

type_synonym stats = "(string \<times> int) list"

definition stats_get :: "stats \<Rightarrow> string \<Rightarrow> int" where
  "stats_get s k = (case map_of s k of None \<Rightarrow> 0 | Some v \<Rightarrow> v)"

definition stats_incr :: "stats \<Rightarrow> string \<Rightarrow> stats" where
  "stats_incr s k = AList.update k (stats_get s k + 1) s"

definition startswith :: "string \<Rightarrow> string \<Rightarrow> bool" where
  "startswith s p = (take (length p) s = p)"

text \<open>The loop of lines 123 to 133, over the declared names that remain.\<close>

fun fields_loop ::
  "schema_cls \<Rightarrow> string list \<Rightarrow> string list \<Rightarrow> stats \<Rightarrow> schema_call list
     \<Rightarrow> (error + stats) \<times> schema_call list"
where
  "fields_loop cls current_fields [] stats calls = (Inr stats, calls)"
| "fields_loop cls current_fields (field_name # rest) stats calls =
     (case getattr cls field_name of
        Inl e \<Rightarrow> (Inl e, calls)
      | Inr field_opts \<Rightarrow>
          (case kwargs field_opts of
             Inl e \<Rightarrow> (Inl e, calls)
           | Inr opts \<Rightarrow>
               if field_name \<notin> set current_fields
               then fields_loop cls current_fields rest
                      (stats_incr stats ''added'') (calls @ [AddField field_name opts])
               else fields_loop cls current_fields rest
                      (stats_incr stats ''replaced'') (calls @ [ReplaceField field_name opts])))"

text \<open>The loop of lines 136 to 143, over the remote names that remain.\<close>

fun delete_loop ::
  "string list \<Rightarrow> string list \<Rightarrow> stats \<Rightarrow> schema_call list \<Rightarrow> stats \<times> schema_call list"
where
  "delete_loop configured_field_names [] stats calls = (stats, calls)"
| "delete_loop configured_field_names (field_name # rest) stats calls =
     (if field_name = ''id'' \<or> startswith field_name ''_''
      then delete_loop configured_field_names rest stats calls
      else if field_name \<notin> set configured_field_names
      then delete_loop configured_field_names rest
             (stats_incr stats ''deleted'') (calls @ [DeleteField field_name])
      else delete_loop configured_field_names rest stats calls)"

definition configure_solr_fields ::
  "schema_cls \<Rightarrow> remote_field list \<Rightarrow> (error + stats) \<times> schema_call list"
where
  "configure_solr_fields cls listing =
     (let current_fields = map rf_name listing;
          configured_field_names = get_field_names cls
      in case fields_loop cls current_fields configured_field_names [] [ListFields] of
           (Inl e, calls) \<Rightarrow> (Inl e, calls)
         | (Inr stats, calls) \<Rightarrow>
             (case delete_loop configured_field_names current_fields stats calls of
                (stats', calls') \<Rightarrow> (Inr stats', calls')))"

text \<open>
  Lines 163 and 164: the listing as a dictionary keyed on \<^verbatim>\<open>ftype['name']\<close>. A later
  entry of the same name replaces the earlier one. An entry without the key raises
  \<^verbatim>\<open>KeyError\<close>; a name that is a list or a dictionary cannot be a key. Keys are
  compared as values; that Python also takes \<^verbatim>\<open>True\<close> and \<^verbatim>\<open>1\<close> for one key
  cannot show, since the dictionary is only ever looked up under strings.
\<close>

fun hashable :: "pyval \<Rightarrow> bool" where
  "hashable (PList xs) = False"
| "hashable (PDict d) = False"
| "hashable v = True"

fun field_types_dict ::
  "pydict list \<Rightarrow> (pyval \<times> pydict) list \<Rightarrow> error + (pyval \<times> pydict) list"
where
  "field_types_dict [] acc = Inr acc"
| "field_types_dict (ftype # rest) acc =
     (case dict_get ftype ''name'' of
        None \<Rightarrow> Inl (KeyError ''name'')
      | Some k \<Rightarrow>
          if hashable k then field_types_dict rest (AList.update k ftype acc)
          else Inl TypeError)"

text \<open>
  The loop of lines 166 to 189. \<^verbatim>\<open>del current_field_type_opts['name']\<close> changes the
  entry held in \<^verbatim>\<open>current_field_types\<close>, so the dictionary is threaded through the
  loop; \<^verbatim>\<open>field_type_opts\<close>, with the name stored in it, is what both calls receive.
\<close>

fun fieldtypes_loop ::
  "schema_cls \<Rightarrow> string list \<Rightarrow> (pyval \<times> pydict) list \<Rightarrow> stats \<Rightarrow> schema_call list
     \<Rightarrow> (error + stats) \<times> schema_call list"
where
  "fieldtypes_loop cls [] current_field_types stats calls = (Inr stats, calls)"
| "fieldtypes_loop cls (field_type # rest) current_field_types stats calls =
     (case getattr cls field_type of
        Inl e \<Rightarrow> (Inl e, calls)
      | Inr v \<Rightarrow>
          (case kwargs v of
             Inl e \<Rightarrow> (Inl e, calls)
           | Inr d \<Rightarrow>
               (let field_type_opts = dict_set d ''name'' (PStr field_type)
                in case map_of current_field_types (PStr field_type) of
                     Some current_field_type_opts \<Rightarrow>
                       (case dict_del current_field_type_opts ''name'' of
                          Inl e \<Rightarrow> (Inl e, calls)
                        | Inr stripped \<Rightarrow>
                            fieldtypes_loop cls rest
                              (AList.update (PStr field_type) stripped current_field_types)
                              (stats_incr stats ''updated'')
                              (calls @ [ReplaceFieldType field_type_opts]))
                   | None \<Rightarrow>
                       fieldtypes_loop cls rest current_field_types
                         (stats_incr stats ''added'')
                         (calls @ [AddFieldType field_type_opts]))))"

definition configure_solr_fieldtypes ::
  "schema_cls \<Rightarrow> pydict list \<Rightarrow> (error + stats) \<times> schema_call list"
where
  "configure_solr_fieldtypes cls listing =
     (let configured_field_types = get_field_types cls
      in if configured_field_types = [] then (Inr [], [])
         else (case field_types_dict listing [] of
                 Inl e \<Rightarrow> (Inl e, [ListFieldTypes])
               | Inr current_field_types \<Rightarrow>
                   fieldtypes_loop cls configured_field_types current_field_types
                     [] [ListFieldTypes]))"

section \<open>Reading the call log\<close>

text \<open>
  The declared descriptors with their names, in declaration order, and the numbers of
  calls of each kind that a log holds for one name. These only state the theorems.
\<close>

fun declared_fields :: "schema_cls \<Rightarrow> (string \<times> SolrField) list" where
  "declared_fields [] = []"
| "declared_fields ((n, Field f) # cls) = (n, f) # declared_fields cls"
| "declared_fields ((n, a) # cls) = declared_fields cls"

fun declared_field_types :: "schema_cls \<Rightarrow> (string \<times> SolrFieldType) list" where
  "declared_field_types [] = []"
| "declared_field_types ((n, FieldType t) # cls) = (n, t) # declared_field_types cls"
| "declared_field_types ((n, a) # cls) = declared_field_types cls"

fun is_add_field :: "string \<Rightarrow> schema_call \<Rightarrow> bool" where
  "is_add_field n (AddField m opts) = (m = n)"
| "is_add_field n c = False"

fun is_replace_field :: "string \<Rightarrow> schema_call \<Rightarrow> bool" where
  "is_replace_field n (ReplaceField m opts) = (m = n)"
| "is_replace_field n c = False"

fun is_delete_field :: "string \<Rightarrow> schema_call \<Rightarrow> bool" where
  "is_delete_field n (DeleteField m) = (m = n)"
| "is_delete_field n c = False"

definition count_calls :: "(schema_call \<Rightarrow> bool) \<Rightarrow> schema_call list \<Rightarrow> nat" where
  "count_calls p calls = length (filter p calls)"

text \<open>The names under which the remote listing holds field types.\<close>

definition remote_type_names :: "pydict list \<Rightarrow> pyval list" where
  "remote_type_names listing = List.map_filter (\<lambda>ftype. dict_get ftype ''name'') listing"

definition protected_name :: "string \<Rightarrow> bool" where
  "protected_name n = (n = ''id'' \<or> startswith n ''_'')"

section \<open>The remote schema, for runs in succession\<close>

text \<open>
  Modelled from the spec: the remote index server behind \<^verbatim>\<open>solr.schema\<close> is not
  part of the source. Its contract in the spec is: the listings return what the schema
  holds; add puts a definition under a name; replace fully overwrites the definition of
  that name; delete removes the name.
\<close>

record remote =
  rem_fields :: "remote_field list"
  rem_field_types :: "pydict list"

fun apply_call :: "schema_call \<Rightarrow> remote \<Rightarrow> remote" where
  "apply_call ListFields r = r"
| "apply_call (AddField n opts) r =
     r\<lparr> rem_fields := rem_fields r @ [\<lparr> rf_name = n, rf_opts = opts \<rparr>] \<rparr>"
| "apply_call (ReplaceField n opts) r =
     r\<lparr> rem_fields :=
          map (\<lambda>f. if rf_name f = n then \<lparr> rf_name = n, rf_opts = opts \<rparr> else f)
            (rem_fields r) \<rparr>"
| "apply_call (DeleteField n) r =
     r\<lparr> rem_fields := filter (\<lambda>f. rf_name f \<noteq> n) (rem_fields r) \<rparr>"
| "apply_call ListFieldTypes r = r"
| "apply_call (AddFieldType d) r =
     r\<lparr> rem_field_types := rem_field_types r @ [d] \<rparr>"
| "apply_call (ReplaceFieldType d) r =
     r\<lparr> rem_field_types :=
          map (\<lambda>t. if dict_get t ''name'' = dict_get d ''name'' then d else t)
            (rem_field_types r) \<rparr>"

text \<open>One run against the remote: the listing is read from it, the calls change it.\<close>

definition run_fields :: "schema_cls \<Rightarrow> remote \<Rightarrow> (error + stats) \<times> remote" where
  "run_fields cls r =
     (case configure_solr_fields cls (rem_fields r) of
        (res, calls) \<Rightarrow> (res, fold apply_call calls r))"

definition run_fieldtypes :: "schema_cls \<Rightarrow> remote \<Rightarrow> (error + stats) \<times> remote" where
  "run_fieldtypes cls r =
     (case configure_solr_fieldtypes cls (rem_field_types r) of
        (res, calls) \<Rightarrow> (res, fold apply_call calls r))"

definition field_names :: "remote \<Rightarrow> string list" where
  "field_names r = map rf_name (rem_fields r)"

definition field_type_names :: "remote \<Rightarrow> pyval option list" where
  "field_type_names r = map (\<lambda>t. dict_get t ''name'') (rem_field_types r)"

text \<open>
  The remote is settled for a class when a run has nothing to add or to delete: every
  declared name is in the listing, and every listed field name is declared or
  protected.
\<close>

definition fields_settled :: "schema_cls \<Rightarrow> remote \<Rightarrow> bool" where
  "fields_settled cls r =
     (list_all (\<lambda>n. n \<in> set (field_names r)) (get_field_names cls)
      \<and> list_all (\<lambda>n. protected_name n \<or> n \<in> set (get_field_names cls)) (field_names r))"

definition fieldtypes_settled :: "schema_cls \<Rightarrow> remote \<Rightarrow> bool" where
  "fieldtypes_settled cls r =
     list_all (\<lambda>n. Some (PStr n) \<in> set (field_type_names r)) (get_field_types cls)"

text \<open>Every listed field type has a name that can be a dictionary key.\<close>

definition named_types :: "remote \<Rightarrow> bool" where
  "named_types r =
     list_all (\<lambda>x. case x of None \<Rightarrow> False | Some k \<Rightarrow> hashable k) (field_type_names r)"

section \<open>Bulk indexing\<close>

text \<open>
  Modelled from the spec: \<^verbatim>\<open>Indexable.index_items\<close> lives in
  \<^verbatim>\<open>parasol/indexing.py\<close>, which is not part of the source; only its test is. The
  spec: the stream is cut into contiguous chunks of the fixed chunk size, the last one
  possibly shorter; each chunk is mapped through \<^verbatim>\<open>index_data\<close> and submitted as one
  bulk-index call; a progress sink, if supplied, gets one update per chunk; the result
  is the total number of records. The record's \<^verbatim>\<open>index_data\<close> is a parameter. The
  sink is the number of updates it has received, \<open>None\<close> when none was supplied.
\<close>

function index_items_loop ::
  "('r \<Rightarrow> pydict) \<Rightarrow> nat \<Rightarrow> 'r list \<Rightarrow> nat \<Rightarrow> pydict list list \<Rightarrow> nat option
     \<Rightarrow> nat \<times> pydict list list \<times> nat option"
where
  "index_items_loop index_data chunk_size items count calls progbar =
     (let chunk = take chunk_size items
      in if chunk = [] then (count, calls, progbar)
         else index_items_loop index_data chunk_size (drop chunk_size items)
                (count + length chunk) (calls @ [map index_data chunk])
                (map_option Suc progbar))"
  by pat_completeness auto
termination
  by (relation "measure (\<lambda>(index_data, chunk_size, items, count, calls, progbar). length items)")
     auto

definition index_items ::
  "('r \<Rightarrow> pydict) \<Rightarrow> nat \<Rightarrow> 'r list \<Rightarrow> nat option \<Rightarrow> nat \<times> pydict list list \<times> nat option"
where
  "index_items index_data chunk_size items progbar =
     index_items_loop index_data chunk_size items 0 [] progbar"

declare show_nat.simps [simp del]
declare index_items_loop.simps [simp del]

section \<open>The update handler: what is sent and what is kept\<close>

text \<open>
  C4. With \<^verbatim>\<open>commit=True\<close> the local dictionary ends as \<open>{commit: True}\<close>, without
  \<^verbatim>\<open>commitWithin\<close>, as the comment in the source intends. The request, however, is
  made with \<^verbatim>\<open>self.params\<close>: at a handler built with \<^verbatim>\<open>commit_within = 1000\<close> it
  carries \<^verbatim>\<open>commitWithin\<close> and no \<^verbatim>\<open>commit\<close>.
\<close>

theorem index_commit_sends_stored_params:
  "fst (index urljoin (Update_init c (PInt 1000)) docs True PNone)
     = Inr \<lparr> req_method = ''post'',
             req_url = urljoin (build_url c (update_handler c) @ ''/'') ''json/docs'',
             req_data = docs,
             req_params = [(''commitWithin'', PInt 1000)],
             req_headers = [(''Content-Type'', PStr ''application/json'')] \<rparr>
   \<and> index_local_params (Update_init c (PInt 1000)) True PNone = Inr [(''commit'', PBool True)]"
  by (simp add: index_def index_local_params_def Update_init_def dict_set_def dict_del_def
                dict_has_def Let_def)

text \<open>
  C10. A call to \<^verbatim>\<open>index\<close> leaves the object as it was, whatever the arguments and
  whether or not it raises; in particular the stored parameters of a handler still
  hold the constructor's \<^verbatim>\<open>commitWithin\<close> value after the call.
\<close>

theorem index_keeps_stored_params:
  "snd (index urljoin self docs commit commit_within) = self
   \<and> upd_params (snd (index urljoin (Update_init c w) docs commit commit_within))
       = [(''commitWithin'', w)]"
  by (simp add: index_def Update_init_def split: sum.splits)

section \<open>Descriptors and the active configuration\<close>

text \<open>
  C9, as stated, fails: not every assignment reaches \<^verbatim>\<open>__set__\<close>. Assigning to
  the attribute on the class rebinds it without an error, and the field is then no
  longer declared; assigning to the attribute \<^verbatim>\<open>type\<close> of the descriptor object
  succeeds and changes the configuration that \<^verbatim>\<open>__get__\<close> returns.
\<close>

theorem assignment_not_intercepted_counterexample:
  "class_setattr [(''title'', Field (SolrStringField_init False False))] ''title''
       (Other (PStr ''foo''))
     = (Inr (), [(''title'', Other (PStr ''foo''))])
   \<and> SolrField_setattr_type (SolrStringField_init False False) (PStr ''text_en'')
     = (Inr (), SolrField_init (PStr ''text_en'') False False)
   \<and> SolrField_get (SolrStringField_init False False)
     = [(''type'', PStr ''string''), (''required'', PBool False), (''multiValued'', PBool False)]
   \<and> SolrField_get (snd (SolrField_setattr_type (SolrStringField_init False False)
                            (PStr ''text_en'')))
     = [(''type'', PStr ''text_en''), (''required'', PBool False), (''multiValued'', PBool False)]"
  by (simp add: class_setattr_def SolrField_setattr_type_def SolrStringField_init_def
                SolrTypedField_init_def SolrField_init_def SolrField_get_def)

text \<open>
  C9, amended. For every field or field-type descriptor that a schema class holds, and
  every assignment to that attribute through an instance of the class, whatever the
  instance and the value: the assignment raises \<^verbatim>\<open>AttributeError\<close>, and the class,
  the instance and the configuration the descriptor returns are as before.
\<close>

theorem instance_assignment_raises:
  assumes "map_of cls name = Some a"
    and "isinstance_SolrField a \<or> isinstance_SolrFieldType a"
  shows "instance_setattr cls obj name val = (Inl AttributeError, cls, obj)
     \<and> getattr (fst (snd (instance_setattr cls obj name val))) name = getattr cls name"
proof -
  have same: "AList.update name a cls = cls"
    by (rule update_triv [OF assms(1)])
  have run: "instance_setattr cls obj name val = (Inl AttributeError, cls, obj)"
  proof (cases a)
    case (Field f)
    with assms(1) same show ?thesis
      by (simp add: instance_setattr_def SolrField_set_def)
  next
    case (FieldType t)
    with assms(1) same show ?thesis
      by (simp add: instance_setattr_def SolrFieldType_set_def)
  next
    case (Other v)
    with assms(2) show ?thesis by simp
  qed
  show ?thesis
    by (simp add: run)
qed

theorem instance_assignment_raises_witness:
  "map_of [(''title'', Field (SolrStringField_init False False)),
           (''text_en'', FieldType (SolrFieldType_init (PStr ''solr.TextField'')
              \<lparr>tokenizer = PStr ''solr.StandardTokenizerFactory'', filters = PList []\<rparr>))]
      ''title'' = Some (Field (SolrStringField_init False False))
   \<and> isinstance_SolrField (Field (SolrStringField_init False False))
   \<and> instance_setattr
        [(''title'', Field (SolrStringField_init False False)),
         (''text_en'', FieldType (SolrFieldType_init (PStr ''solr.TextField'')
            \<lparr>tokenizer = PStr ''solr.StandardTokenizerFactory'', filters = PList []\<rparr>))]
        [] ''title'' (PStr ''foo'')
      = (Inl AttributeError,
         [(''title'', Field (SolrStringField_init False False)),
          (''text_en'', FieldType (SolrFieldType_init (PStr ''solr.TextField'')
             \<lparr>tokenizer = PStr ''solr.StandardTokenizerFactory'', filters = PList []\<rparr>))],
         [])
   \<and> map_of [(''title'', Field (SolrStringField_init False False)),
           (''text_en'', FieldType (SolrFieldType_init (PStr ''solr.TextField'')
              \<lparr>tokenizer = PStr ''solr.StandardTokenizerFactory'', filters = PList []\<rparr>))]
      ''text_en'' = Some (FieldType (SolrFieldType_init (PStr ''solr.TextField'')
              \<lparr>tokenizer = PStr ''solr.StandardTokenizerFactory'', filters = PList []\<rparr>))
   \<and> isinstance_SolrFieldType (FieldType (SolrFieldType_init (PStr ''solr.TextField'')
              \<lparr>tokenizer = PStr ''solr.StandardTokenizerFactory'', filters = PList []\<rparr>))
   \<and> instance_setattr
        [(''title'', Field (SolrStringField_init False False)),
         (''text_en'', FieldType (SolrFieldType_init (PStr ''solr.TextField'')
            \<lparr>tokenizer = PStr ''solr.StandardTokenizerFactory'', filters = PList []\<rparr>))]
        [] ''text_en'' (PStr ''foo'')
      = (Inl AttributeError,
         [(''title'', Field (SolrStringField_init False False)),
          (''text_en'', FieldType (SolrFieldType_init (PStr ''solr.TextField'')
             \<lparr>tokenizer = PStr ''solr.StandardTokenizerFactory'', filters = PList []\<rparr>))],
         [])"
proof -
  let ?f = "Field (SolrStringField_init False False)"
  let ?t = "FieldType (SolrFieldType_init (PStr ''solr.TextField'')
              \<lparr>tokenizer = PStr ''solr.StandardTokenizerFactory'', filters = PList []\<rparr>)"
  let ?cls = "[(''title'', ?f), (''text_en'', ?t)]"
  have m1: "map_of ?cls ''title'' = Some ?f" by simp
  have i1: "isinstance_SolrField ?f" by simp
  have m2: "map_of ?cls ''text_en'' = Some ?t" by simp
  have i2: "isinstance_SolrFieldType ?t" by simp
  have c1: "instance_setattr ?cls [] ''title'' (PStr ''foo'') = (Inl AttributeError, ?cls, [])"
    by (rule instance_assignment_raises [OF m1 disjI1 [OF i1], THEN conjunct1])
  have c2: "instance_setattr ?cls [] ''text_en'' (PStr ''foo'') = (Inl AttributeError, ?cls, [])"
    by (rule instance_assignment_raises [OF m2 disjI2 [OF i2], THEN conjunct1])
  show ?thesis
    by (intro conjI m1 i1 c1 m2 i2 c2)
qed

text \<open>
  C8. \<^verbatim>\<open>get_configuration\<close> raises when the number of subclasses is not one, and
  returns the subclass when there is exactly one.
\<close>

theorem get_configuration_unique:
  "(length subclasses \<noteq> 1 \<longrightarrow> (\<exists>msg. get_configuration subclasses = Inl (Exception msg)))
   \<and> (\<forall>c. subclasses = [c] \<longrightarrow> get_configuration subclasses = Inr c)"
  by (cases subclasses) (auto simp: get_configuration_def)

theorem get_configuration_unique_witness:
  "(\<exists>msg. get_configuration ([] :: nat list) = Inl (Exception msg))
   \<and> (\<exists>msg. get_configuration [1, 2 :: nat] = Inl (Exception msg))
   \<and> get_configuration [7 :: nat] = Inr 7"
  using get_configuration_unique [of "[] :: nat list"]
        get_configuration_unique [of "[1, 2 :: nat]"]
        get_configuration_unique [of "[7 :: nat]"]
  by simp

section \<open>Counters and declared descriptors\<close>

lemma stats_get_incr:
  "stats_get (stats_incr s k) k' = (if k' = k then stats_get s k + 1 else stats_get s k')"
  by (simp add: stats_get_def stats_incr_def update_conv')

lemma stats_get_foldl:
  "stats_get (foldl (\<lambda>s x. stats_incr s (key x)) s xs) k
     = stats_get s k + int (length (filter (\<lambda>x. key x = k) xs))"
  by (induction xs arbitrary: s) (auto simp: stats_get_incr)

lemma declared_fields_iff:
  "(n, f) \<in> set (declared_fields cls) \<longleftrightarrow> (n, Field f) \<in> set cls"
  by (induction cls rule: declared_fields.induct) auto

lemma declared_field_types_iff:
  "(n, t) \<in> set (declared_field_types cls) \<longleftrightarrow> (n, FieldType t) \<in> set cls"
  by (induction cls rule: declared_field_types.induct) auto

lemma get_field_names_declared: "get_field_names cls = map fst (declared_fields cls)"
  by (induction cls rule: declared_fields.induct) (simp_all add: get_field_names_def)

lemma get_field_types_declared: "get_field_types cls = map fst (declared_field_types cls)"
  by (induction cls rule: declared_field_types.induct) (simp_all add: get_field_types_def)

lemma getattr_declared_field:
  "distinct (map fst cls) \<Longrightarrow> (n, f) \<in> set (declared_fields cls) \<Longrightarrow>
     getattr cls n = Inr (PDict (SolrField_get f))"
  by (simp add: getattr_def declared_fields_iff)

lemma getattr_declared_field_type:
  "distinct (map fst cls) \<Longrightarrow> (n, t) \<in> set (declared_field_types cls) \<Longrightarrow>
     getattr cls n = Inr (PDict (SolrFieldType_get t))"
  by (simp add: getattr_def declared_field_types_iff)

lemma distinct_declared_fields:
  "distinct (map fst cls) \<Longrightarrow> distinct (map fst (declared_fields cls))"
  by (induction cls rule: declared_fields.induct) (force simp: declared_fields_iff image_iff)+

lemma distinct_declared_field_types:
  "distinct (map fst cls) \<Longrightarrow> distinct (map fst (declared_field_types cls))"
  by (induction cls rule: declared_field_types.induct)
     (force simp: declared_field_types_iff image_iff)+

section \<open>Field reconciliation in closed form\<close>

lemma fields_loop_closed:
  "\<forall>(n, f) \<in> set ds. getattr cls n = Inr (PDict (SolrField_get f)) \<Longrightarrow>
   fields_loop cls cur (map fst ds) stats calls =
     (Inr (foldl (\<lambda>s x. stats_incr s (if fst x \<in> set cur then ''replaced'' else ''added''))
             stats ds),
      calls @ map (\<lambda>(n, f). if n \<in> set cur then ReplaceField n (SolrField_get f)
                              else AddField n (SolrField_get f)) ds)"
  by (induction ds arbitrary: stats calls) auto

lemma delete_loop_closed:
  "delete_loop conf cur stats calls =
     (foldl (\<lambda>s x. stats_incr s ''deleted'') stats
        (filter (\<lambda>n. \<not> protected_name n \<and> n \<notin> set conf) cur),
      calls @ map DeleteField (filter (\<lambda>n. \<not> protected_name n \<and> n \<notin> set conf) cur))"
  by (induction cur arbitrary: stats calls) (auto simp: protected_name_def)

lemma configure_solr_fields_closed:
  assumes "distinct (map fst cls)"
  shows "configure_solr_fields cls listing =
     (Inr (foldl (\<lambda>s x. stats_incr s ''deleted'')
             (foldl (\<lambda>s x. stats_incr s
                        (if fst x \<in> rf_name ` set listing then ''replaced'' else ''added''))
                [] (declared_fields cls))
             (filter (\<lambda>n. \<not> protected_name n \<and> n \<notin> set (get_field_names cls))
                (map rf_name listing))),
      ListFields #
      map (\<lambda>(n, f). if n \<in> rf_name ` set listing then ReplaceField n (SolrField_get f)
                       else AddField n (SolrField_get f)) (declared_fields cls)
      @ map DeleteField
          (filter (\<lambda>n. \<not> protected_name n \<and> n \<notin> set (get_field_names cls))
             (map rf_name listing)))"
proof -
  have "\<forall>(n, f) \<in> set (declared_fields cls). getattr cls n = Inr (PDict (SolrField_get f))"
    using assms by (auto simp: getattr_declared_field)
  from fields_loop_closed [OF this]
  show ?thesis
    by (simp add: configure_solr_fields_def Let_def delete_loop_closed
                  get_field_names_declared [symmetric])
qed

section \<open>Field reconciliation: the calls and the counters\<close>

lemma stats_get_Nil: "stats_get [] k = 0"
  by (simp add: stats_get_def)

lemma count_calls_Nil: "count_calls p [] = 0"
  by (simp add: count_calls_def)

lemma count_calls_append: "count_calls p (xs @ ys) = count_calls p xs + count_calls p ys"
  by (simp add: count_calls_def)

lemma count_calls_Cons: "count_calls p (x # xs) = (if p x then 1 else 0) + count_calls p xs"
  by (simp add: count_calls_def)

lemma is_field_call_if:
  "is_add_field m (if c then ReplaceField a x else AddField a y) = (\<not> c \<and> a = m)"
  "is_replace_field m (if c then ReplaceField a x else AddField a y) = (c \<and> a = m)"
  "is_delete_field m (if c then ReplaceField a x else AddField a y) = False"
  by simp_all

lemma length_filter_key:
  "distinct (map fst ds) \<Longrightarrow> (n, f) \<in> set ds \<Longrightarrow> length (filter (\<lambda>d. fst d = n) ds) = 1"
  by (induction ds) (force simp: image_iff filter_empty_conv)+

lemma count_field_calls:
  "count_calls (is_add_field n)
       (map (\<lambda>(m, g). if m \<in> S then ReplaceField m (SolrField_get g)
                        else AddField m (SolrField_get g)) ds)
     = (if n \<in> S then 0 else length (filter (\<lambda>d. fst d = n) ds))
   \<and> count_calls (is_replace_field n)
       (map (\<lambda>(m, g). if m \<in> S then ReplaceField m (SolrField_get g)
                        else AddField m (SolrField_get g)) ds)
     = (if n \<in> S then length (filter (\<lambda>d. fst d = n) ds) else 0)
   \<and> count_calls (is_delete_field n)
       (map (\<lambda>(m, g). if m \<in> S then ReplaceField m (SolrField_get g)
                        else AddField m (SolrField_get g)) ds) = 0"
  by (induction ds) (auto simp: count_calls_Nil count_calls_Cons is_field_call_if)

lemma count_list_distinct:
  "distinct xs \<Longrightarrow> x \<in> set xs \<Longrightarrow> count_list xs x = 1"
  by (induction xs) auto

lemma count_delete_calls:
  "count_calls (is_add_field n) (map DeleteField xs) = 0
   \<and> count_calls (is_replace_field n) (map DeleteField xs) = 0
   \<and> count_calls (is_delete_field n) (map DeleteField xs) = count_list xs n"
  by (induction xs) (auto simp: count_calls_Nil count_calls_Cons)

text \<open>
  C1. With the keys of the class dictionary distinct, a run succeeds, and for every
  declared field: if its name is absent from the remote listing the log holds exactly
  one \<^verbatim>\<open>add_field\<close> call for it, with the declared options, and no
  \<^verbatim>\<open>replace_field\<close> call; if the name is present it holds exactly one
  \<^verbatim>\<open>replace_field\<close> call and no \<^verbatim>\<open>add_field\<close> call. \<^verbatim>\<open>stats.added\<close> is the
  number of declared names absent remotely and \<^verbatim>\<open>stats.replaced\<close> the number
  present.
\<close>

theorem configure_solr_fields_add_replace:
  assumes "distinct (map fst cls)"
  shows "\<exists>stats calls. configure_solr_fields cls listing = (Inr stats, calls)
     \<and> (\<forall>(n, f) \<in> set (declared_fields cls).
           (n \<notin> rf_name ` set listing \<longrightarrow>
              AddField n (SolrField_get f) \<in> set calls
              \<and> count_calls (is_add_field n) calls = 1
              \<and> count_calls (is_replace_field n) calls = 0)
         \<and> (n \<in> rf_name ` set listing \<longrightarrow>
              ReplaceField n (SolrField_get f) \<in> set calls
              \<and> count_calls (is_replace_field n) calls = 1
              \<and> count_calls (is_add_field n) calls = 0))
     \<and> stats_get stats ''added''
         = int (length (filter (\<lambda>n. n \<notin> rf_name ` set listing) (get_field_names cls)))
     \<and> stats_get stats ''replaced''
         = int (length (filter (\<lambda>n. n \<in> rf_name ` set listing) (get_field_names cls)))"
proof -
  let ?S = "rf_name ` set listing"
  let ?ar = "map (\<lambda>(n, f). if n \<in> ?S then ReplaceField n (SolrField_get f)
                       else AddField n (SolrField_get f)) (declared_fields cls)"
  let ?dels = "filter (\<lambda>n. \<not> protected_name n \<and> n \<notin> set (get_field_names cls))
             (map rf_name listing)"
  let ?calls = "ListFields # ?ar @ map DeleteField ?dels"
  let ?st1 = "foldl (\<lambda>s x. stats_incr s (if fst x \<in> ?S then ''replaced'' else ''added''))
                [] (declared_fields cls)"
  let ?stats = "foldl (\<lambda>s x. stats_incr s ''deleted'') ?st1 ?dels"
  have run: "configure_solr_fields cls listing = (Inr ?stats, ?calls)"
    by (rule configure_solr_fields_closed [OF assms])
  have dd: "distinct (map fst (declared_fields cls))"
    by (rule distinct_declared_fields [OF assms])
  have per_name: "(n \<notin> ?S \<longrightarrow>
              AddField n (SolrField_get f) \<in> set ?calls
              \<and> count_calls (is_add_field n) ?calls = 1
              \<and> count_calls (is_replace_field n) ?calls = 0)
         \<and> (n \<in> ?S \<longrightarrow>
              ReplaceField n (SolrField_get f) \<in> set ?calls
              \<and> count_calls (is_replace_field n) ?calls = 1
              \<and> count_calls (is_add_field n) ?calls = 0)"
    if nf: "(n, f) \<in> set (declared_fields cls)" for n f
  proof -
    have mem: "(if n \<in> ?S then ReplaceField n (SolrField_get f)
               else AddField n (SolrField_get f)) \<in> set ?ar"
      using nf by (auto simp: image_iff intro!: bexI [where x = "(n, f)"])
    have one: "length (filter (\<lambda>d. fst d = n) (declared_fields cls)) = 1"
      by (rule length_filter_key [OF dd nf])
    have cnt: "count_calls (is_add_field n) ?calls = (if n \<in> ?S then 0 else 1)"
         "count_calls (is_replace_field n) ?calls = (if n \<in> ?S then 1 else 0)"
      using one
      by (simp_all only: count_calls_Cons count_calls_append count_field_calls
                         count_delete_calls is_add_field.simps is_replace_field.simps)
         simp_all
    from mem cnt show ?thesis
      by (cases "n \<in> ?S") simp_all
  qed
  have st1: "stats_get ?stats k = stats_get ?st1 k + (if k = ''deleted'' then int (length ?dels) else 0)" for k
    by (simp only: stats_get_foldl [where key = "\<lambda>x. ''deleted''"]) simp
  have added: "stats_get ?stats ''added''
         = int (length (filter (\<lambda>n. n \<notin> ?S) (get_field_names cls)))"
    by (simp only: st1 stats_get_foldl [where key = "\<lambda>x. if fst x \<in> ?S then ''replaced'' else ''added''"])
       (simp add: stats_get_Nil get_field_names_declared filter_map comp_def)
  have replaced: "stats_get ?stats ''replaced''
         = int (length (filter (\<lambda>n. n \<in> ?S) (get_field_names cls)))"
    by (simp only: st1 stats_get_foldl [where key = "\<lambda>x. if fst x \<in> ?S then ''replaced'' else ''added''"])
       (simp add: stats_get_Nil get_field_names_declared filter_map comp_def)
  show ?thesis
  proof (rule exI [of _ ?stats], rule exI [of _ ?calls], intro conjI ballI)
    show "configure_solr_fields cls listing = (Inr ?stats, ?calls)"
      by (rule run)
  next
    fix x
    assume x: "x \<in> set (declared_fields cls)"
    obtain n f where nf: "x = (n, f)" by (cases x)
    from x show "case x of (n, f) \<Rightarrow>
           (n \<notin> ?S \<longrightarrow>
              AddField n (SolrField_get f) \<in> set ?calls
              \<and> count_calls (is_add_field n) ?calls = 1
              \<and> count_calls (is_replace_field n) ?calls = 0)
         \<and> (n \<in> ?S \<longrightarrow>
              ReplaceField n (SolrField_get f) \<in> set ?calls
              \<and> count_calls (is_replace_field n) ?calls = 1
              \<and> count_calls (is_add_field n) ?calls = 0)"
      unfolding nf prod.case by (rule per_name)
  next
    show "stats_get ?stats ''added''
         = int (length (filter (\<lambda>n. n \<notin> ?S) (get_field_names cls)))"
      by (rule added)
  next
    show "stats_get ?stats ''replaced''
         = int (length (filter (\<lambda>n. n \<in> ?S) (get_field_names cls)))"
      by (rule replaced)
  qed
qed


theorem configure_solr_fields_add_replace_witness:
  "distinct (map fst
      [(''title'', Field (SolrStringField_init False False)),
       (''author'', Field (SolrStringField_init False True)),
       (''index_name'', Other (PStr ''main''))])
   \<and> (\<exists>stats calls.
         configure_solr_fields
           [(''title'', Field (SolrStringField_init False False)),
            (''author'', Field (SolrStringField_init False True)),
            (''index_name'', Other (PStr ''main''))]
           [\<lparr>rf_name = ''id'', rf_opts = []\<rparr>, \<lparr>rf_name = ''title'', rf_opts = []\<rparr>,
            \<lparr>rf_name = ''old'', rf_opts = []\<rparr>] = (Inr stats, calls)
         \<and> count_calls (is_replace_field ''title'') calls = 1
         \<and> count_calls (is_add_field ''title'') calls = 0
         \<and> count_calls (is_add_field ''author'') calls = 1
         \<and> count_calls (is_replace_field ''author'') calls = 0
         \<and> stats_get stats ''added'' = 1
         \<and> stats_get stats ''replaced'' = 1)"
proof -
  let ?cls = "[(''title'', Field (SolrStringField_init False False)),
       (''author'', Field (SolrStringField_init False True)),
       (''index_name'', Other (PStr ''main''))]"
  let ?l = "[\<lparr>rf_name = ''id'', rf_opts = []\<rparr>, \<lparr>rf_name = ''title'', rf_opts = []\<rparr>,
            \<lparr>rf_name = ''old'', rf_opts = []\<rparr>]"
  have h: "distinct (map fst ?cls)" by simp
  from configure_solr_fields_add_replace [OF h, of ?l]
  obtain stats calls where
    run: "configure_solr_fields ?cls ?l = (Inr stats, calls)"
    and each: "\<forall>(n, f) \<in> set (declared_fields ?cls).
           (n \<notin> rf_name ` set ?l \<longrightarrow>
              AddField n (SolrField_get f) \<in> set calls
              \<and> count_calls (is_add_field n) calls = 1
              \<and> count_calls (is_replace_field n) calls = 0)
         \<and> (n \<in> rf_name ` set ?l \<longrightarrow>
              ReplaceField n (SolrField_get f) \<in> set calls
              \<and> count_calls (is_replace_field n) calls = 1
              \<and> count_calls (is_add_field n) calls = 0)"
    and added: "stats_get stats ''added''
         = int (length (filter (\<lambda>n. n \<notin> rf_name ` set ?l) (get_field_names ?cls)))"
    and replaced: "stats_get stats ''replaced''
         = int (length (filter (\<lambda>n. n \<in> rf_name ` set ?l) (get_field_names ?cls)))"
    by blast
  from each have
    "count_calls (is_replace_field ''title'') calls = 1"
    "count_calls (is_add_field ''title'') calls = 0"
    "count_calls (is_add_field ''author'') calls = 1"
    "count_calls (is_replace_field ''author'') calls = 0"
    by simp_all
  moreover from added have "stats_get stats ''added'' = 1"
    by (simp add: get_field_names_def)
  moreover from replaced have "stats_get stats ''replaced'' = 1"
    by (simp add: get_field_names_def)
  ultimately show ?thesis using h run by blast
qed

text \<open>
  C2. The \<^verbatim>\<open>delete_field\<close> calls for a name are as many as its entries in the remote
  listing when the name is neither declared nor protected, and none otherwise; in a
  listing without repeated names that is exactly one call for every undeclared,
  unprotected name. No delete is issued for \<^verbatim>\<open>id\<close> or for a name that starts with an
  underscore, declared or not. \<^verbatim>\<open>stats.deleted\<close> is the number of deletes.
\<close>

theorem configure_solr_fields_delete:
  assumes "distinct (map fst cls)"
  shows "\<exists>stats calls. configure_solr_fields cls listing = (Inr stats, calls)
     \<and> (\<forall>n. count_calls (is_delete_field n) calls
              = (if protected_name n \<or> n \<in> set (get_field_names cls) then 0
                 else count_list (map rf_name listing) n))
     \<and> (distinct (map rf_name listing) \<longrightarrow>
          (\<forall>n \<in> rf_name ` set listing.
              n \<notin> set (get_field_names cls) \<and> n \<noteq> ''id'' \<and> \<not> startswith n ''_'' \<longrightarrow>
              DeleteField n \<in> set calls \<and> count_calls (is_delete_field n) calls = 1))
     \<and> (\<forall>n. n = ''id'' \<or> startswith n ''_'' \<longrightarrow> DeleteField n \<notin> set calls)
     \<and> stats_get stats ''deleted''
         = int (length (filter (\<lambda>n. n \<notin> set (get_field_names cls) \<and> n \<noteq> ''id''
                                       \<and> \<not> startswith n ''_'') (map rf_name listing)))"
proof -
  let ?S = "rf_name ` set listing"
  let ?ar = "map (\<lambda>(n, f). if n \<in> ?S then ReplaceField n (SolrField_get f)
                       else AddField n (SolrField_get f)) (declared_fields cls)"
  let ?dels = "filter (\<lambda>n. \<not> protected_name n \<and> n \<notin> set (get_field_names cls))
             (map rf_name listing)"
  let ?calls = "ListFields # ?ar @ map DeleteField ?dels"
  let ?st1 = "foldl (\<lambda>s x. stats_incr s (if fst x \<in> ?S then ''replaced'' else ''added''))
                [] (declared_fields cls)"
  let ?stats = "foldl (\<lambda>s x. stats_incr s ''deleted'') ?st1 ?dels"
  have run: "configure_solr_fields cls listing = (Inr ?stats, ?calls)"
    by (rule configure_solr_fields_closed [OF assms])
  have cnt: "count_calls (is_delete_field n) ?calls
              = (if protected_name n \<or> n \<in> set (get_field_names cls) then 0
                 else count_list (map rf_name listing) n)" for n
  proof -
    have "count_calls (is_delete_field n) ?calls = count_list ?dels n"
      by (simp only: count_calls_Cons count_calls_append count_field_calls
                     count_delete_calls is_delete_field.simps) simp
    also have "\<dots> = (if protected_name n \<or> n \<in> set (get_field_names cls) then 0
                 else count_list (map rf_name listing) n)"
      by (induction listing) auto
    finally show ?thesis .
  qed
  have mem: "DeleteField n \<in> set ?calls \<longleftrightarrow> n \<in> set ?dels" for n
    by (auto split: if_splits)
  have one: "DeleteField n \<in> set ?calls \<and> count_calls (is_delete_field n) ?calls = 1"
    if "distinct (map rf_name listing)" "n \<in> ?S" "n \<notin> set (get_field_names cls)"
       "n \<noteq> ''id''" "\<not> startswith n ''_''" for n
  proof -
    from that have "count_list (map rf_name listing) n = 1"
      by (intro count_list_distinct) simp_all
    with that show ?thesis
      by (simp only: cnt mem) (auto simp: protected_name_def)
  qed
  have never: "DeleteField n \<notin> set ?calls" if "n = ''id'' \<or> startswith n ''_''" for n
    using that by (simp only: mem) (auto simp: protected_name_def)
  have deleted: "stats_get ?stats ''deleted''
         = int (length (filter (\<lambda>n. n \<notin> set (get_field_names cls) \<and> n \<noteq> ''id''
                                       \<and> \<not> startswith n ''_'') (map rf_name listing)))"
  proof -
    have a: "stats_get ?stats ''deleted'' = stats_get ?st1 ''deleted'' + int (length ?dels)"
      by (simp only: stats_get_foldl [where key = "\<lambda>x. ''deleted''"]) simp
    have b: "stats_get ?st1 ''deleted'' = 0"
      by (simp only: stats_get_foldl
            [where key = "\<lambda>x. if fst x \<in> ?S then ''replaced'' else ''added''"])
         (simp add: stats_get_Nil)
    have c: "?dels = filter (\<lambda>n. n \<notin> set (get_field_names cls) \<and> n \<noteq> ''id''
                                       \<and> \<not> startswith n ''_'') (map rf_name listing)"
      by (rule filter_cong) (auto simp: protected_name_def)
    have "stats_get ?stats ''deleted'' = int (length ?dels)"
      by (simp add: a b)
    then show ?thesis unfolding c .
  qed
  show ?thesis
  proof (rule exI [of _ ?stats], rule exI [of _ ?calls], intro conjI allI impI ballI)
    show "configure_solr_fields cls listing = (Inr ?stats, ?calls)" by (rule run)
  next
    fix n show "count_calls (is_delete_field n) ?calls
              = (if protected_name n \<or> n \<in> set (get_field_names cls) then 0
                 else count_list (map rf_name listing) n)" by (rule cnt)
  next
    fix n
    assume "distinct (map rf_name listing)" "n \<in> ?S"
      "n \<notin> set (get_field_names cls) \<and> n \<noteq> ''id'' \<and> \<not> startswith n ''_''"
    then show "DeleteField n \<in> set ?calls" using one by blast
  next
    fix n
    assume "distinct (map rf_name listing)" "n \<in> ?S"
      "n \<notin> set (get_field_names cls) \<and> n \<noteq> ''id'' \<and> \<not> startswith n ''_''"
    then show "count_calls (is_delete_field n) ?calls = 1" using one by blast
  next
    fix n assume "n = ''id'' \<or> startswith n ''_''"
    then show "DeleteField n \<notin> set ?calls" by (rule never)
  next
    show "stats_get ?stats ''deleted''
         = int (length (filter (\<lambda>n. n \<notin> set (get_field_names cls) \<and> n \<noteq> ''id''
                                       \<and> \<not> startswith n ''_'') (map rf_name listing)))"
      by (rule deleted)
  qed
qed

theorem configure_solr_fields_delete_witness:
  "distinct (map fst
      [(''title'', Field (SolrStringField_init False False)),
       (''_text'', Field (SolrStringField_init False True)),
       (''index_name'', Other (PStr ''main''))])
   \<and> distinct (map rf_name
         [\<lparr>rf_name = ''id'', rf_opts = []\<rparr>, \<lparr>rf_name = ''_version_'', rf_opts = []\<rparr>,
          \<lparr>rf_name = ''title'', rf_opts = []\<rparr>, \<lparr>rf_name = ''old'', rf_opts = []\<rparr>])
   \<and> (\<exists>stats calls.
         configure_solr_fields
           [(''title'', Field (SolrStringField_init False False)),
            (''_text'', Field (SolrStringField_init False True)),
            (''index_name'', Other (PStr ''main''))]
           [\<lparr>rf_name = ''id'', rf_opts = []\<rparr>, \<lparr>rf_name = ''_version_'', rf_opts = []\<rparr>,
            \<lparr>rf_name = ''title'', rf_opts = []\<rparr>, \<lparr>rf_name = ''old'', rf_opts = []\<rparr>]
           = (Inr stats, calls)
         \<and> DeleteField ''old'' \<in> set calls
         \<and> count_calls (is_delete_field ''old'') calls = 1
         \<and> count_calls (is_delete_field ''title'') calls = 0
         \<and> DeleteField ''id'' \<notin> set calls
         \<and> DeleteField ''_version_'' \<notin> set calls
         \<and> stats_get stats ''deleted'' = 1)"
proof -
  let ?cls = "[(''title'', Field (SolrStringField_init False False)),
       (''_text'', Field (SolrStringField_init False True)),
       (''index_name'', Other (PStr ''main''))]"
  let ?l = "[\<lparr>rf_name = ''id'', rf_opts = []\<rparr>, \<lparr>rf_name = ''_version_'', rf_opts = []\<rparr>,
          \<lparr>rf_name = ''title'', rf_opts = []\<rparr>, \<lparr>rf_name = ''old'', rf_opts = []\<rparr>]"
  have h: "distinct (map fst ?cls)" by simp
  have hl: "distinct (map rf_name ?l)" by simp
  have names: "get_field_names ?cls = [''title'', ''_text'']"
    by (simp add: get_field_names_def)
  from configure_solr_fields_delete [OF h, of ?l] show ?thesis
  proof (elim exE conjE)
    fix stats calls
    assume run: "configure_solr_fields ?cls ?l = (Inr stats, calls)"
    and cnt: "\<forall>n. count_calls (is_delete_field n) calls
              = (if protected_name n \<or> n \<in> set (get_field_names ?cls) then 0
                 else count_list (map rf_name ?l) n)"
    and one: "distinct (map rf_name ?l) \<longrightarrow>
          (\<forall>n \<in> rf_name ` set ?l.
              n \<notin> set (get_field_names ?cls) \<and> n \<noteq> ''id'' \<and> \<not> startswith n ''_'' \<longrightarrow>
              DeleteField n \<in> set calls \<and> count_calls (is_delete_field n) calls = 1)"
    and never: "\<forall>n. n = ''id'' \<or> startswith n ''_'' \<longrightarrow> DeleteField n \<notin> set calls"
    and deleted: "stats_get stats ''deleted''
         = int (length (filter (\<lambda>n. n \<notin> set (get_field_names ?cls) \<and> n \<noteq> ''id''
                                       \<and> \<not> startswith n ''_'') (map rf_name ?l)))"
    from one hl have old: "''old'' \<notin> set (get_field_names ?cls) \<and> ''old'' \<noteq> ''id''
           \<and> \<not> startswith ''old'' ''_'' \<longrightarrow>
        DeleteField ''old'' \<in> set calls \<and> count_calls (is_delete_field ''old'') calls = 1"
      by simp
    have f1: "DeleteField ''old'' \<in> set calls"
      and f2: "count_calls (is_delete_field ''old'') calls = 1"
      using old by (simp_all add: names startswith_def)
    have f3: "count_calls (is_delete_field ''title'') calls = 0"
      using spec [OF cnt, of "''title''"] by (simp add: names)
    have f4: "DeleteField ''id'' \<notin> set calls"
      using spec [OF never, of "''id''"] by simp
    have f5: "DeleteField ''_version_'' \<notin> set calls"
      using spec [OF never, of "''_version_''"] by (simp add: startswith_def)
    have f6: "stats_get stats ''deleted'' = 1"
      using deleted by (simp add: names startswith_def)
    show ?thesis
      by (intro conjI h hl exI [of _ stats] exI [of _ calls] run f1 f2 f3 f4 f5 f6)
  qed
qed

section \<open>Field-type reconciliation\<close>

lemma set_remote_type_names:
  "set (remote_type_names listing) = {k. \<exists>t \<in> set listing. dict_get t ''name'' = Some k}"
  by (induction listing) (auto simp: remote_type_names_def split: option.splits)

lemma field_types_dict_closed:
  "\<forall>t \<in> set listing. \<exists>k. dict_get t ''name'' = Some k \<and> hashable k \<Longrightarrow>
   \<forall>k d. map_of acc k = Some d \<longrightarrow> dict_get d ''name'' = Some k \<Longrightarrow>
   \<exists>cft. field_types_dict listing acc = Inr cft
     \<and> (\<forall>k d. map_of cft k = Some d \<longrightarrow> dict_get d ''name'' = Some k)
     \<and> dom (map_of cft) = dom (map_of acc) \<union> {k. \<exists>t \<in> set listing. dict_get t ''name'' = Some k}"
proof (induction listing arbitrary: acc)
  case Nil
  then show ?case by simp
next
  case (Cons t listing)
  from Cons.prems(1) obtain k where k: "dict_get t ''name'' = Some k" "hashable k"
    by auto
  let ?acc = "AList.update k t acc"
  have inv: "\<forall>k' d. map_of ?acc k' = Some d \<longrightarrow> dict_get d ''name'' = Some k'"
    using Cons.prems(2) k by (auto simp: update_conv')
  have rest: "\<forall>t \<in> set listing. \<exists>k. dict_get t ''name'' = Some k \<and> hashable k"
    using Cons.prems(1) by simp
  from Cons.IH [OF rest inv] obtain cft where
    cft: "field_types_dict listing ?acc = Inr cft"
      "\<forall>k d. map_of cft k = Some d \<longrightarrow> dict_get d ''name'' = Some k"
      "dom (map_of cft) = dom (map_of ?acc) \<union> {k. \<exists>t \<in> set listing. dict_get t ''name'' = Some k}"
    by blast
  have "dom (map_of cft) = dom (map_of acc) \<union> {k'. \<exists>t' \<in> set (t # listing). dict_get t' ''name'' = Some k'}"
    using cft(3) k by (auto simp: update_conv')
  with cft k show ?case by simp
qed


lemma dict_has_get: "dict_has d k \<longleftrightarrow> dict_get d k \<noteq> None"
  by (simp add: dict_has_def dict_get_def map_of_eq_None_iff)

lemma fieldtypes_loop_closed:
  "\<forall>(n, t) \<in> set ds. getattr cls n = Inr (PDict (SolrFieldType_get t)) \<Longrightarrow>
   distinct (map fst ds) \<Longrightarrow>
   dom (map_of cft) = K \<Longrightarrow>
   \<forall>n \<in> fst ` set ds. \<forall>d. map_of cft (PStr n) = Some d \<longrightarrow> dict_has d ''name'' \<Longrightarrow>
   fieldtypes_loop cls (map fst ds) cft stats calls =
     (Inr (foldl (\<lambda>s x. stats_incr s (if PStr (fst x) \<in> K then ''updated'' else ''added''))
             stats ds),
      calls @ map (\<lambda>(n, t). if PStr n \<in> K
                              then ReplaceFieldType (dict_set (SolrFieldType_get t) ''name'' (PStr n))
                              else AddFieldType (dict_set (SolrFieldType_get t) ''name'' (PStr n)))
                ds)"
proof (induction ds arbitrary: cft stats calls)
  case Nil
  then show ?case by simp
next
  case (Cons x ds)
  obtain n t where x: "x = (n, t)" by (cases x)
  have ga: "getattr cls n = Inr (PDict (SolrFieldType_get t))"
    using Cons.prems(1) x by simp
  have rest_ga: "\<forall>(n, t) \<in> set ds. getattr cls n = Inr (PDict (SolrFieldType_get t))"
    using Cons.prems(1) by simp
  have rest_d: "distinct (map fst ds)" and fresh: "n \<notin> fst ` set ds"
    using Cons.prems(2) x by simp_all
  show ?case
  proof (cases "map_of cft (PStr n)")
    case None
    then have notin: "PStr n \<notin> K" using Cons.prems(3) by (auto simp: dom_def)
    have rest_inv: "\<forall>m \<in> fst ` set ds. \<forall>d. map_of cft (PStr m) = Some d \<longrightarrow> dict_has d ''name''"
      using Cons.prems(4) by simp
    from Cons.IH [OF rest_ga rest_d Cons.prems(3) rest_inv] None notin ga x
    show ?thesis by simp
  next
    case (Some d)
    then have isin: "PStr n \<in> K" using Cons.prems(3) by (auto simp: dom_def)
    have has: "dict_has d ''name''" using Cons.prems(4) Some x by simp
    let ?cft = "AList.update (PStr n) (AList.delete ''name'' d) cft"
    have dom': "dom (map_of ?cft) = K"
      using Cons.prems(3) isin by (auto simp: update_conv')
    have rest_inv: "\<forall>m \<in> fst ` set ds. \<forall>d. map_of ?cft (PStr m) = Some d \<longrightarrow> dict_has d ''name''"
      using Cons.prems(4) fresh by (auto simp: update_conv')
    from Cons.IH [OF rest_ga rest_d dom' rest_inv] Some isin has ga x
    show ?thesis by (simp add: dict_del_def)
  qed
qed

lemma configure_solr_fieldtypes_closed:
  assumes "distinct (map fst cls)"
    and "\<forall>t \<in> set listing. \<exists>k. dict_get t ''name'' = Some k \<and> hashable k"
  shows "configure_solr_fieldtypes cls listing =
     (if declared_field_types cls = [] then (Inr [], [])
      else (Inr (foldl (\<lambda>s x. stats_incr s
                          (if PStr (fst x) \<in> set (remote_type_names listing) then ''updated'' else ''added''))
                   [] (declared_field_types cls)),
            ListFieldTypes #
            map (\<lambda>(n, t). if PStr n \<in> set (remote_type_names listing)
                            then ReplaceFieldType (dict_set (SolrFieldType_get t) ''name'' (PStr n))
                            else AddFieldType (dict_set (SolrFieldType_get t) ''name'' (PStr n)))
              (declared_field_types cls)))"
proof (cases "declared_field_types cls = []")
  case True
  then show ?thesis
    by (simp add: configure_solr_fieldtypes_def get_field_types_declared)
next
  case False
  from field_types_dict_closed [OF assms(2), of "[]"] obtain cft where
    cft: "field_types_dict listing [] = Inr cft"
      "\<forall>k d. map_of cft k = Some d \<longrightarrow> dict_get d ''name'' = Some k"
      "dom (map_of cft) = set (remote_type_names listing)"
    by (auto simp: set_remote_type_names)
  have ga: "\<forall>(n, t) \<in> set (declared_field_types cls).
              getattr cls n = Inr (PDict (SolrFieldType_get t))"
    using assms(1) by (auto simp: getattr_declared_field_type)
  have inv: "\<forall>n \<in> fst ` set (declared_field_types cls).
               \<forall>d. map_of cft (PStr n) = Some d \<longrightarrow> dict_has d ''name''"
    using cft(2) by (auto simp: dict_has_get)
  from fieldtypes_loop_closed
         [OF ga distinct_declared_field_types [OF assms(1)] cft(3) inv, of "[]" "[ListFieldTypes]"]
       False cft(1)
  show ?thesis
    by (simp add: configure_solr_fieldtypes_def get_field_types_declared)
qed


lemma is_type_call_if_mem:
  "(n, t) \<in> set ds \<Longrightarrow>
   (if PStr n \<in> K then ReplaceFieldType (dict_set (SolrFieldType_get t) ''name'' (PStr n))
    else AddFieldType (dict_set (SolrFieldType_get t) ''name'' (PStr n)))
   \<in> set (map (\<lambda>(n, t). if PStr n \<in> K
                  then ReplaceFieldType (dict_set (SolrFieldType_get t) ''name'' (PStr n))
                  else AddFieldType (dict_set (SolrFieldType_get t) ''name'' (PStr n))) ds)"
  by (auto simp: image_iff intro!: bexI [where x = "(n, t)"])

lemma dict_get_set: "dict_get (dict_set d k v) k = Some v"
  by (simp add: dict_get_def dict_set_def update_conv')

text \<open>
  C7. When the class declares no field type, \<^verbatim>\<open>configure_solr_fieldtypes\<close> returns at
  once: every counter reads zero and the log is empty, so not even the listing of field
  types is fetched.
\<close>

theorem fieldtypes_none_declared:
  "get_field_types cls = [] \<Longrightarrow>
     \<exists>stats. configure_solr_fieldtypes cls listing = (Inr stats, [])
       \<and> (\<forall>k. stats_get stats k = 0)"
  by (simp add: configure_solr_fieldtypes_def stats_get_Nil)

theorem fieldtypes_none_declared_witness:
  "get_field_types [(''title'', Field (SolrStringField_init False False))] = []
   \<and> (\<exists>stats. configure_solr_fieldtypes
          [(''title'', Field (SolrStringField_init False False))]
          [[(''class'', PStr ''solr.TextField'')]] = (Inr stats, [])
       \<and> (\<forall>k. stats_get stats k = 0))"
proof -
  have h: "get_field_types [(''title'', Field (SolrStringField_init False False))] = []"
    by (simp add: get_field_types_def)
  show ?thesis
    by (rule conjI [OF h fieldtypes_none_declared [OF h]])
qed

text \<open>
  C3, as stated, fails: for a declared type that exists remotely, the definition passed
  to \<^verbatim>\<open>replace_field_type\<close> still holds the key \<^verbatim>\<open>name\<close>. The statement
  \<^verbatim>\<open>del current_field_type_opts['name']\<close> acts on the entry of the remote listing.
\<close>

theorem replace_field_type_keeps_name_counterexample:
  "configure_solr_fieldtypes
     [(''text_en'', FieldType (SolrFieldType_init (PStr ''solr.TextField'')
          \<lparr>tokenizer = PStr ''solr.StandardTokenizerFactory'', filters = PList []\<rparr>))]
     [[(''name'', PStr ''text_en''), (''class'', PStr ''solr.TextField'')]]
   = (Inr [(''updated'', 1)],
      [ListFieldTypes,
       ReplaceFieldType
         [(''class'', PStr ''solr.TextField''),
          (''analyzer'', PDict [(''tokenizer'', PDict [(''class'', PStr ''solr.StandardTokenizerFactory'')]),
                               (''filters'', PList [])]),
          (''name'', PStr ''text_en'')]])
   \<and> dict_get
         [(''class'', PStr ''solr.TextField''),
          (''analyzer'', PDict [(''tokenizer'', PDict [(''class'', PStr ''solr.StandardTokenizerFactory'')]),
                               (''filters'', PList [])]),
          (''name'', PStr ''text_en'')] ''name'' = Some (PStr ''text_en'')"
  by (simp add: configure_solr_fieldtypes_def get_field_types_def getattr_def
                SolrFieldType_get_def SolrFieldType_init_def as_solr_config_def
                dict_get_def dict_set_def dict_del_def dict_has_def
                stats_incr_def stats_get_def)


text \<open>
  C3, amended. With distinct keys in the class dictionary and a listing whose entries
  all carry a hashable \<^verbatim>\<open>name\<close>: for every declared field type whose name exists
  remotely, \<^verbatim>\<open>replace_field_type\<close> is called with the declared definition to which
  the name has been added, the name still being in it; every such call carries the name
  of a declared type that exists remotely; and \<^verbatim>\<open>stats.updated\<close> is the number of
  declared names that exist remotely.
\<close>

theorem replace_field_type_passes_name:
  assumes "distinct (map fst cls)"
    and "\<forall>ftype \<in> set listing. \<exists>k. dict_get ftype ''name'' = Some k \<and> hashable k"
  shows "\<exists>stats calls. configure_solr_fieldtypes cls listing = (Inr stats, calls)
     \<and> (\<forall>(n, t) \<in> set (declared_field_types cls).
           PStr n \<in> set (remote_type_names listing) \<longrightarrow>
             ReplaceFieldType (dict_set (SolrFieldType_get t) ''name'' (PStr n)) \<in> set calls
             \<and> dict_get (dict_set (SolrFieldType_get t) ''name'' (PStr n)) ''name''
                 = Some (PStr n))
     \<and> (\<forall>d. ReplaceFieldType d \<in> set calls \<longrightarrow>
           (\<exists>n. dict_get d ''name'' = Some (PStr n) \<and> n \<in> set (get_field_types cls)
                \<and> PStr n \<in> set (remote_type_names listing)))
     \<and> stats_get stats ''updated''
         = int (length (filter (\<lambda>n. PStr n \<in> set (remote_type_names listing))
                          (get_field_types cls)))"
proof (cases "declared_field_types cls = []")
  case True
  then have run: "configure_solr_fieldtypes cls listing = (Inr [], [])"
    by (simp add: configure_solr_fieldtypes_closed [OF assms])
  show ?thesis
    by (rule exI [of _ "[]"], rule exI [of _ "[]"])
       (simp add: run True stats_get_Nil get_field_types_declared)
next
  case False
  let ?K = "set (remote_type_names listing)"
  let ?f = "\<lambda>(n, t). if PStr n \<in> ?K
                  then ReplaceFieldType (dict_set (SolrFieldType_get t) ''name'' (PStr n))
                  else AddFieldType (dict_set (SolrFieldType_get t) ''name'' (PStr n))"
  let ?calls = "ListFieldTypes # map ?f (declared_field_types cls)"
  let ?stats = "foldl (\<lambda>s x. stats_incr s (if PStr (fst x) \<in> ?K then ''updated'' else ''added''))
                   [] (declared_field_types cls)"
  have run: "configure_solr_fieldtypes cls listing = (Inr ?stats, ?calls)"
    using False by (simp add: configure_solr_fieldtypes_closed [OF assms])
  have passed: "ReplaceFieldType (dict_set (SolrFieldType_get t) ''name'' (PStr n)) \<in> set ?calls
             \<and> dict_get (dict_set (SolrFieldType_get t) ''name'' (PStr n)) ''name''
                 = Some (PStr n)"
    if "(n, t) \<in> set (declared_field_types cls)" "PStr n \<in> ?K" for n t
    using is_type_call_if_mem [OF that(1), of ?K] that(2)
    by (simp add: dict_get_set)
  have only: "\<exists>n. dict_get d ''name'' = Some (PStr n) \<and> n \<in> set (get_field_types cls)
                \<and> PStr n \<in> ?K"
    if "ReplaceFieldType d \<in> set ?calls" for d
  proof -
    from that obtain n t where nt: "(n, t) \<in> set (declared_field_types cls)"
      and d: "ReplaceFieldType d = ?f (n, t)"
      by auto
    from d have "PStr n \<in> ?K" "d = dict_set (SolrFieldType_get t) ''name'' (PStr n)"
      by (simp_all split: if_splits)
    moreover from nt have "n \<in> set (get_field_types cls)"
      by (force simp: get_field_types_declared)
    ultimately show ?thesis
      by (auto simp: dict_get_set)
  qed
  have updated: "stats_get ?stats ''updated''
         = int (length (filter (\<lambda>n. PStr n \<in> ?K) (get_field_types cls)))"
    by (simp only: stats_get_foldl
          [where key = "\<lambda>x. if PStr (fst x) \<in> ?K then ''updated'' else ''added''"])
       (simp add: stats_get_Nil get_field_types_declared filter_map comp_def)
  show ?thesis
  proof (rule exI [of _ ?stats], rule exI [of _ ?calls], intro conjI ballI allI impI)
    show "configure_solr_fieldtypes cls listing = (Inr ?stats, ?calls)" by (rule run)
  next
    fix x
    assume x: "x \<in> set (declared_field_types cls)"
    obtain n t where nt: "x = (n, t)" by (cases x)
    from x show "case x of (n, t) \<Rightarrow>
           PStr n \<in> ?K \<longrightarrow>
             ReplaceFieldType (dict_set (SolrFieldType_get t) ''name'' (PStr n)) \<in> set ?calls
             \<and> dict_get (dict_set (SolrFieldType_get t) ''name'' (PStr n)) ''name''
                 = Some (PStr n)"
      unfolding nt prod.case using passed by blast
  next
    fix d assume "ReplaceFieldType d \<in> set ?calls"
    then show "\<exists>n. dict_get d ''name'' = Some (PStr n) \<and> n \<in> set (get_field_types cls)
                \<and> PStr n \<in> ?K" by (rule only)
  next
    show "stats_get ?stats ''updated''
         = int (length (filter (\<lambda>n. PStr n \<in> ?K) (get_field_types cls)))"
      by (rule updated)
  qed
qed


theorem replace_field_type_passes_name_witness:
  "distinct (map fst
      [(''text_en'', FieldType (SolrFieldType_init (PStr ''solr.TextField'')
          \<lparr>tokenizer = PStr ''solr.StandardTokenizerFactory'', filters = PList []\<rparr>))])
   \<and> dict_get [(''name'', PStr ''text_en''), (''class'', PStr ''solr.TextField'')] ''name''
       = Some (PStr ''text_en'')
   \<and> hashable (PStr ''text_en'')
   \<and> (\<exists>stats calls.
        configure_solr_fieldtypes
          [(''text_en'', FieldType (SolrFieldType_init (PStr ''solr.TextField'')
              \<lparr>tokenizer = PStr ''solr.StandardTokenizerFactory'', filters = PList []\<rparr>))]
          [[(''name'', PStr ''text_en''), (''class'', PStr ''solr.TextField'')]]
          = (Inr stats, calls)
        \<and> ReplaceFieldType
             (dict_set (SolrFieldType_get (SolrFieldType_init (PStr ''solr.TextField'')
                \<lparr>tokenizer = PStr ''solr.StandardTokenizerFactory'', filters = PList []\<rparr>))
                ''name'' (PStr ''text_en'')) \<in> set calls
        \<and> dict_get
             (dict_set (SolrFieldType_get (SolrFieldType_init (PStr ''solr.TextField'')
                \<lparr>tokenizer = PStr ''solr.StandardTokenizerFactory'', filters = PList []\<rparr>))
                ''name'' (PStr ''text_en'')) ''name'' = Some (PStr ''text_en'')
        \<and> stats_get stats ''updated'' = 1)"
proof -
  let ?t = "SolrFieldType_init (PStr ''solr.TextField'')
          \<lparr>tokenizer = PStr ''solr.StandardTokenizerFactory'', filters = PList []\<rparr>"
  let ?cls = "[(''text_en'', FieldType ?t)]"
  let ?l = "[[(''name'', PStr ''text_en''), (''class'', PStr ''solr.TextField'')]]"
  have h: "distinct (map fst ?cls)" by simp
  have g: "dict_get [(''name'', PStr ''text_en''), (''class'', PStr ''solr.TextField'')] ''name''
       = Some (PStr ''text_en'')"
    by (simp add: dict_get_def)
  have hk: "hashable (PStr ''text_en'')" by simp
  have wf: "\<forall>ftype \<in> set ?l. \<exists>k. dict_get ftype ''name'' = Some k \<and> hashable k"
    using g hk by simp
  have names: "remote_type_names ?l = [PStr ''text_en'']"
    by (simp add: remote_type_names_def dict_get_def)
  have types: "get_field_types ?cls = [''text_en'']"
    by (simp add: get_field_types_def)
  from replace_field_type_passes_name [OF h wf] show ?thesis
  proof (elim exE conjE)
    fix stats calls
    assume run: "configure_solr_fieldtypes ?cls ?l = (Inr stats, calls)"
      and passed: "\<forall>(n, t) \<in> set (declared_field_types ?cls).
           PStr n \<in> set (remote_type_names ?l) \<longrightarrow>
             ReplaceFieldType (dict_set (SolrFieldType_get t) ''name'' (PStr n)) \<in> set calls
             \<and> dict_get (dict_set (SolrFieldType_get t) ''name'' (PStr n)) ''name''
                 = Some (PStr n)"
      and updated: "stats_get stats ''updated''
         = int (length (filter (\<lambda>n. PStr n \<in> set (remote_type_names ?l))
                          (get_field_types ?cls)))"
    from passed have
      f1: "ReplaceFieldType (dict_set (SolrFieldType_get ?t) ''name'' (PStr ''text_en''))
             \<in> set calls"
      and f2: "dict_get (dict_set (SolrFieldType_get ?t) ''name'' (PStr ''text_en'')) ''name''
             = Some (PStr ''text_en'')"
      by (simp_all add: names)
    have f3: "stats_get stats ''updated'' = 1"
      using updated by (simp add: names types)
    show ?thesis
      by (intro conjI h g hk exI [of _ stats] exI [of _ calls] run f1 f2 f3)
  qed
qed

section \<open>Bulk indexing in chunks\<close>

lemma ceil_div_step:
  assumes "0 < c" "0 < (n::nat)"
  shows "(n + c - 1) div c = Suc ((n - c + c - 1) div c)"
proof -
  have "n + c - 1 = (n - 1) + c" using assms by simp
  then have lhs: "(n + c - 1) div c = Suc ((n - 1) div c)"
    using assms by (simp only: div_add_self2)
  have rhs: "(n - c + c - 1) div c = (n - 1) div c"
  proof (cases "n \<le> c")
    case True
    then have "n - c + c - 1 = c - 1" by simp
    moreover have "(c - 1) div c = 0" "(n - 1) div c = 0" using assms True by simp_all
    ultimately show ?thesis by simp
  next
    case False
    then have "n - c + c - 1 = n - 1" by simp
    then show ?thesis by simp
  qed
  show ?thesis by (simp only: lhs rhs)
qed

lemma index_items_loop_closed:
  "0 < chunk_size \<Longrightarrow>
   \<exists>new. index_items_loop index_data chunk_size items count calls progbar =
       (count + length items, calls @ new,
        map_option (\<lambda>k. k + (length items + chunk_size - 1) div chunk_size) progbar)
     \<and> length new = (length items + chunk_size - 1) div chunk_size
     \<and> (\<forall>s \<in> set new. s \<noteq> [] \<and> length s \<le> chunk_size)
     \<and> concat new = map index_data items"
proof (induction index_data chunk_size items count calls progbar rule: index_items_loop.induct)
  case (1 index_data chunk_size items count calls progbar)
  show ?case
  proof (cases "items = []")
    case True
    with "1.prems" show ?thesis
      by (simp add: index_items_loop.simps [of _ _ "[]"] option.map_ident)
  next
    case False
    let ?chunk = "take chunk_size items"
    let ?rest = "drop chunk_size items"
    have ne: "?chunk \<noteq> []" using False "1.prems" by simp
    from "1.IH" [OF refl ne "1.prems"] obtain new where
      new: "index_items_loop index_data chunk_size ?rest (count + length ?chunk)
              (calls @ [map index_data ?chunk]) (map_option Suc progbar) =
            (count + length ?chunk + length ?rest, (calls @ [map index_data ?chunk]) @ new,
             map_option (\<lambda>k. k + (length ?rest + chunk_size - 1) div chunk_size)
               (map_option Suc progbar))"
        "length new = (length ?rest + chunk_size - 1) div chunk_size"
        "\<forall>s \<in> set new. s \<noteq> [] \<and> length s \<le> chunk_size"
        "concat new = map index_data ?rest"
      by blast
    have step: "(length items + chunk_size - 1) div chunk_size
                  = Suc ((length ?rest + chunk_size - 1) div chunk_size)"
      using ceil_div_step [OF "1.prems", of "length items"] False by simp
    have unfold: "index_items_loop index_data chunk_size items count calls progbar =
        index_items_loop index_data chunk_size ?rest (count + length ?chunk)
              (calls @ [map index_data ?chunk]) (map_option Suc progbar)"
      using ne by (subst index_items_loop.simps) (simp add: Let_def)
    have len: "length ?chunk + length ?rest = length items" by simp
    have cat: "map index_data ?chunk @ map index_data ?rest = map index_data items"
      by (simp only: map_append [symmetric] append_take_drop_id)
    show ?thesis
    proof (rule exI [of _ "map index_data ?chunk # new"], intro conjI)
      show "index_items_loop index_data chunk_size items count calls progbar =
       (count + length items, calls @ map index_data ?chunk # new,
        map_option (\<lambda>k. k + (length items + chunk_size - 1) div chunk_size) progbar)"
        using new(1) len step by (simp add: unfold option.map_comp comp_def add.assoc)
    next
      show "length (map index_data ?chunk # new)
              = (length items + chunk_size - 1) div chunk_size"
        using new(2) step by simp
    next
      show "\<forall>s \<in> set (map index_data ?chunk # new). s \<noteq> [] \<and> length s \<le> chunk_size"
        using new(3) ne by simp
    next
      show "concat (map index_data ?chunk # new) = map index_data items"
        using new(4) cat by simp
    qed
  qed
qed


text \<open>
  C5. For a positive chunk size and \<open>n\<close> records, \<^verbatim>\<open>index_items\<close> makes
  \<open>(n + c - 1) div c\<close> bulk submissions, that is the ceiling of \<open>n / c\<close>; every
  submitted list is non-empty and holds at most \<open>c\<close> documents; the submissions
  put end to end are the \<^verbatim>\<open>index_data\<close> of the records in stream order; the count
  returned is \<open>n\<close>; and a supplied progress sink has received one update per
  submission.
\<close>

theorem index_items_chunks:
  assumes "0 < chunk_size"
  shows "\<exists>calls. index_items index_data chunk_size items progbar =
           (length items, calls,
            map_option (\<lambda>k. k + (length items + chunk_size - 1) div chunk_size) progbar)
     \<and> length calls = (length items + chunk_size - 1) div chunk_size
     \<and> (\<forall>docs \<in> set calls. docs \<noteq> [] \<and> length docs \<le> chunk_size)
     \<and> concat calls = map index_data items"
  using index_items_loop_closed [OF assms, of index_data items 0 "[]" progbar]
  by (simp add: index_items_def)

theorem index_items_chunks_witness:
  "(0::nat) < 6
   \<and> (\<exists>calls. index_items (\<lambda>i. [(''id'', PInt i)]) 6 [0, 1, 2, 3, 4, 5, 6, 7, 8, 9] (Some 0) =
           (10, calls, Some 2)
        \<and> length calls = 2
        \<and> list_all (\<lambda>docs. docs \<noteq> [] \<and> length docs \<le> 6) calls
        \<and> concat calls = map (\<lambda>i. [(''id'', PInt i)]) [0, 1, 2, 3, 4, 5, 6, 7, 8, 9])"
proof -
  have h: "(0::nat) < 6" by simp
  have len: "length [0, 1, 2, 3, 4, 5, 6, 7, 8, 9 :: int] = 10" by simp
  have ceil: "((10::nat) + 6 - 1) div 6 = 2" by simp
  note run = index_items_chunks
    [OF h, of "\<lambda>i. [(''id'', PInt i)]" "[0, 1, 2, 3, 4, 5, 6, 7, 8, 9]" "Some 0",
     unfolded len ceil]
  have two: "map_option (\<lambda>k. k + 2) (Some 0) = Some (2::nat)" by simp
  from run [unfolded two] show ?thesis
    by (simp only: list_all_iff h simp_thms)
qed

text \<open>The example of the test: ten records in chunks of six are sent as six and four.\<close>

lemma index_items_ten_by_six:
  "index_items (\<lambda>i. [(''id'', PInt i)]) 6 [0, 1, 2, 3, 4, 5, 6, 7, 8, 9] (Some 0) =
     (10,
      [map (\<lambda>i. [(''id'', PInt i)]) [0, 1, 2, 3, 4, 5], map (\<lambda>i. [(''id'', PInt i)]) [6, 7, 8, 9]],
      Some 2)"
  by (simp add: index_items_def index_items_loop.simps Let_def)

section \<open>Runs in succession: fields\<close>

lemma field_names_apply_call:
  "field_names (apply_call (AddField n opts) r) = field_names r @ [n]"
  "field_names (apply_call (ReplaceField n opts) r) = field_names r"
  "field_names (apply_call (DeleteField n) r) = filter (\<lambda>m. m \<noteq> n) (field_names r)"
  "field_names (apply_call ListFields r) = field_names r"
  by (simp_all add: field_names_def filter_map comp_def)

lemma names_fold_add_replace:
  "field_names (fold apply_call
       (map (\<lambda>(n, f). if n \<in> S then ReplaceField n (SolrField_get f)
                        else AddField n (SolrField_get f)) ds) r)
     = field_names r @ filter (\<lambda>n. n \<notin> S) (map fst ds)"
proof (induction ds arbitrary: r)
  case Nil
  then show ?case by simp
next
  case (Cons d ds)
  obtain n f where d: "d = (n, f)" by (cases d)
  show ?case
    by (cases "n \<in> S") (simp_all add: d Cons.IH field_names_apply_call del: apply_call.simps)
qed

lemma names_fold_delete:
  "field_names (fold apply_call (map DeleteField xs) r)
     = filter (\<lambda>n. n \<notin> set xs) (field_names r)"
proof (induction xs arbitrary: r)
  case Nil
  then show ?case by simp
next
  case (Cons x xs)
  show ?case
    by (simp add: Cons.IH field_names_apply_call conj_commute del: apply_call.simps)
qed

lemma run_fields_closed:
  assumes "distinct (map fst cls)"
  shows "run_fields cls r =
     (Inr (foldl (\<lambda>s x. stats_incr s ''deleted'')
             (foldl (\<lambda>s x. stats_incr s
                        (if fst x \<in> set (field_names r) then ''replaced'' else ''added''))
                [] (declared_fields cls))
             (filter (\<lambda>n. \<not> protected_name n \<and> n \<notin> set (get_field_names cls))
                (field_names r))),
      fold apply_call
        (map DeleteField
          (filter (\<lambda>n. \<not> protected_name n \<and> n \<notin> set (get_field_names cls))
             (field_names r)))
        (fold apply_call
           (map (\<lambda>(n, f). if n \<in> set (field_names r) then ReplaceField n (SolrField_get f)
                       else AddField n (SolrField_get f)) (declared_fields cls)) r))"
  by (simp add: run_fields_def configure_solr_fields_closed [OF assms] field_names_def)

lemma field_names_after_run:
  assumes "distinct (map fst cls)"
  shows "field_names (snd (run_fields cls r)) =
     filter (\<lambda>n. protected_name n \<or> n \<in> set (get_field_names cls))
       (field_names r @ filter (\<lambda>n. n \<notin> set (field_names r)) (get_field_names cls))"
proof -
  let ?dels = "filter (\<lambda>n. \<not> protected_name n \<and> n \<notin> set (get_field_names cls))
             (field_names r)"
  let ?all = "field_names r @ filter (\<lambda>n. n \<notin> set (field_names r)) (get_field_names cls)"
  have "field_names (snd (run_fields cls r)) = filter (\<lambda>n. n \<notin> set ?dels) ?all"
    by (simp only: run_fields_closed [OF assms] snd_conv names_fold_delete
                   names_fold_add_replace get_field_names_declared)
  also have "\<dots> = filter (\<lambda>n. protected_name n \<or> n \<in> set (get_field_names cls)) ?all"
    by (rule filter_cong) auto
  finally show ?thesis .
qed


lemma fields_settled_after_run:
  assumes "distinct (map fst cls)"
  shows "fields_settled cls (snd (run_fields cls r))"
  unfolding fields_settled_def field_names_after_run [OF assms]
  by (auto simp: list_all_iff)

lemma fields_settled_names:
  assumes "distinct (map fst cls)" and "fields_settled cls r"
  shows "field_names (snd (run_fields cls r)) = field_names r"
proof -
  have a: "filter (\<lambda>n. n \<notin> set (field_names r)) (get_field_names cls) = []"
    using assms(2) by (auto simp: fields_settled_def list_all_iff filter_empty_conv)
  have b: "filter (\<lambda>n. protected_name n \<or> n \<in> set (get_field_names cls)) (field_names r)
             = field_names r"
    using assms(2) by (auto simp: fields_settled_def list_all_iff filter_id_conv)
  show ?thesis
    by (simp only: field_names_after_run [OF assms(1)] a b append_Nil2)
qed

lemma run_fields_names_cong:
  "field_names r = field_names r' \<Longrightarrow> fst (run_fields cls r) = fst (run_fields cls r')"
  by (simp add: run_fields_def configure_solr_fields_def field_names_def split: prod.splits)

lemma fields_settled_counters:
  assumes "distinct (map fst cls)" and "fields_settled cls r"
  shows "\<exists>stats. fst (run_fields cls r) = Inr stats
     \<and> stats_get stats ''added'' = 0
     \<and> stats_get stats ''deleted'' = 0
     \<and> stats_get stats ''replaced'' = int (length (get_field_names cls))"
proof -
  let ?dels = "filter (\<lambda>n. \<not> protected_name n \<and> n \<notin> set (get_field_names cls))
                (field_names r)"
  let ?key = "\<lambda>x :: string \<times> SolrField.
                if fst x \<in> set (field_names r) then ''replaced'' else ''added''"
  let ?st1 = "foldl (\<lambda>s x. stats_incr s (?key x)) [] (declared_fields cls)"
  let ?stats = "foldl (\<lambda>s x. stats_incr s ''deleted'') ?st1 ?dels"
  have run: "fst (run_fields cls r) = Inr ?stats"
    by (simp only: run_fields_closed [OF assms(1)] fst_conv)
  have dels: "?dels = []"
    using assms(2) by (auto simp: fields_settled_def list_all_iff filter_empty_conv)
  have present: "\<forall>x \<in> set (declared_fields cls). fst x \<in> set (field_names r)"
    using assms(2) by (auto simp: fields_settled_def list_all_iff get_field_names_declared)
  have get: "stats_get ?stats k = stats_get ?st1 k" for k
    by (simp only: dels foldl_Nil)
  have cnt: "stats_get ?st1 k = int (length (filter (\<lambda>x. ?key x = k) (declared_fields cls)))" for k
    by (simp only: stats_get_foldl [where key = ?key] stats_get_Nil)
  have added: "filter (\<lambda>x. ?key x = ''added'') (declared_fields cls) = []"
    using present by (auto simp: filter_empty_conv)
  have deleted: "filter (\<lambda>x. ?key x = ''deleted'') (declared_fields cls) = []"
    by (auto simp: filter_empty_conv)
  have replaced: "filter (\<lambda>x. ?key x = ''replaced'') (declared_fields cls) = declared_fields cls"
    using present by (auto simp: filter_id_conv)
  show ?thesis
  proof (rule exI [of _ ?stats], intro conjI)
    show "fst (run_fields cls r) = Inr ?stats" by (rule run)
    show "stats_get ?stats ''added'' = 0" by (simp only: get cnt added) simp
    show "stats_get ?stats ''deleted'' = 0" by (simp only: get cnt deleted) simp
    show "stats_get ?stats ''replaced'' = int (length (get_field_names cls))"
      by (simp only: get cnt replaced) (simp add: get_field_names_declared)
  qed
qed

section \<open>Runs in succession: field types\<close>

lemma field_type_names_apply_call:
  "field_type_names (apply_call (AddFieldType d) r) = field_type_names r @ [dict_get d ''name'']"
  "field_type_names (apply_call (ReplaceFieldType d) r) = field_type_names r"
  "field_type_names (apply_call ListFieldTypes r) = field_type_names r"
  by (simp_all add: field_type_names_def comp_def)

lemma type_names_fold:
  "field_type_names (fold apply_call
       (map (\<lambda>(n, t). if PStr n \<in> K
                        then ReplaceFieldType (dict_set (SolrFieldType_get t) ''name'' (PStr n))
                        else AddFieldType (dict_set (SolrFieldType_get t) ''name'' (PStr n)))
          ds) r)
     = field_type_names r
       @ map (\<lambda>n. Some (PStr n)) (filter (\<lambda>n. PStr n \<notin> K) (map fst ds))"
proof (induction ds arbitrary: r)
  case Nil
  then show ?case by simp
next
  case (Cons d ds)
  obtain n t where d: "d = (n, t)" by (cases d)
  show ?case
    by (cases "PStr n \<in> K")
       (simp_all add: d Cons.IH field_type_names_apply_call dict_get_set del: apply_call.simps)
qed

lemma named_types_listing:
  "named_types r \<Longrightarrow>
     \<forall>ftype \<in> set (rem_field_types r). \<exists>k. dict_get ftype ''name'' = Some k \<and> hashable k"
  by (auto simp: named_types_def field_type_names_def list_all_iff split: option.splits)

lemma remote_type_names_mem:
  "k \<in> set (remote_type_names (rem_field_types r)) \<longleftrightarrow> Some k \<in> set (field_type_names r)"
proof -
  have "k \<in> set (remote_type_names l) \<longleftrightarrow> Some k \<in> set (map (\<lambda>t. dict_get t ''name'') l)" for l
    by (induction l) (auto simp: remote_type_names_def split: option.splits)
  then show ?thesis by (simp only: field_type_names_def)
qed

lemma run_fieldtypes_closed:
  assumes "distinct (map fst cls)" and "named_types r"
  shows "run_fieldtypes cls r =
     (Inr (foldl (\<lambda>s x. stats_incr s
                    (if Some (PStr (fst x)) \<in> set (field_type_names r)
                     then ''updated'' else ''added''))
             [] (declared_field_types cls)),
      fold apply_call
        (map (\<lambda>(n, t). if PStr n \<in> {k. Some k \<in> set (field_type_names r)}
                        then ReplaceFieldType (dict_set (SolrFieldType_get t) ''name'' (PStr n))
                        else AddFieldType (dict_set (SolrFieldType_get t) ''name'' (PStr n)))
          (declared_field_types cls)) r)"
proof -
  have K: "set (remote_type_names (rem_field_types r)) = {k. Some k \<in> set (field_type_names r)}"
    by (auto simp: remote_type_names_mem)
  show ?thesis
    by (cases "declared_field_types cls = []")
       (simp_all add: run_fieldtypes_def
          configure_solr_fieldtypes_closed [OF assms(1) named_types_listing [OF assms(2)]] K)
qed

lemma field_type_names_after_run:
  assumes "distinct (map fst cls)" and "named_types r"
  shows "field_type_names (snd (run_fieldtypes cls r)) =
     field_type_names r
     @ map (\<lambda>n. Some (PStr n))
         (filter (\<lambda>n. Some (PStr n) \<notin> set (field_type_names r)) (get_field_types cls))"
proof -
  have "field_type_names (snd (run_fieldtypes cls r)) =
     field_type_names r
     @ map (\<lambda>n. Some (PStr n))
         (filter (\<lambda>n. PStr n \<notin> {k. Some k \<in> set (field_type_names r)})
            (map fst (declared_field_types cls)))"
    by (simp only: run_fieldtypes_closed [OF assms] snd_conv type_names_fold)
  then show ?thesis
    by (simp add: get_field_types_declared)
qed


lemma named_types_after_run:
  assumes "distinct (map fst cls)" and "named_types r"
  shows "named_types (snd (run_fieldtypes cls r))"
  using assms(2)
  unfolding named_types_def field_type_names_after_run [OF assms]
  by (auto simp: list_all_iff)

lemma fieldtypes_settled_after_run:
  assumes "distinct (map fst cls)" and "named_types r"
  shows "fieldtypes_settled cls (snd (run_fieldtypes cls r))"
  unfolding fieldtypes_settled_def field_type_names_after_run [OF assms]
  by (auto simp: list_all_iff)

lemma fieldtypes_settled_names:
  assumes "distinct (map fst cls)" and "named_types r" and "fieldtypes_settled cls r"
  shows "field_type_names (snd (run_fieldtypes cls r)) = field_type_names r"
proof -
  have "filter (\<lambda>n. Some (PStr n) \<notin> set (field_type_names r)) (get_field_types cls) = []"
    using assms(3) by (auto simp: fieldtypes_settled_def list_all_iff filter_empty_conv)
  then show ?thesis
    by (simp only: field_type_names_after_run [OF assms(1,2)] list.map append_Nil2)
qed

lemma run_fieldtypes_names_cong:
  assumes "distinct (map fst cls)" and "named_types r" and "named_types r'"
    and "field_type_names r = field_type_names r'"
  shows "fst (run_fieldtypes cls r) = fst (run_fieldtypes cls r')"
  by (simp only: run_fieldtypes_closed [OF assms(1,2)] run_fieldtypes_closed [OF assms(1,3)]
                 fst_conv assms(4))

lemma fieldtypes_settled_counters:
  assumes "distinct (map fst cls)" and "named_types r" and "fieldtypes_settled cls r"
  shows "\<exists>stats. fst (run_fieldtypes cls r) = Inr stats
     \<and> stats_get stats ''added'' = 0
     \<and> stats_get stats ''updated'' = int (length (get_field_types cls))"
proof -
  let ?key = "\<lambda>x :: string \<times> SolrFieldType.
                if Some (PStr (fst x)) \<in> set (field_type_names r) then ''updated'' else ''added''"
  let ?stats = "foldl (\<lambda>s x. stats_incr s (?key x)) [] (declared_field_types cls)"
  have run: "fst (run_fieldtypes cls r) = Inr ?stats"
    by (simp only: run_fieldtypes_closed [OF assms(1,2)] fst_conv)
  have present: "\<forall>x \<in> set (declared_field_types cls).
                   Some (PStr (fst x)) \<in> set (field_type_names r)"
    using assms(3)
    by (auto simp: fieldtypes_settled_def list_all_iff get_field_types_declared)
  have cnt: "stats_get ?stats k
               = int (length (filter (\<lambda>x. ?key x = k) (declared_field_types cls)))" for k
    by (simp only: stats_get_foldl [where key = ?key] stats_get_Nil)
  have added: "filter (\<lambda>x. ?key x = ''added'') (declared_field_types cls) = []"
    using present by (auto simp: filter_empty_conv)
  have updated: "filter (\<lambda>x. ?key x = ''updated'') (declared_field_types cls)
                   = declared_field_types cls"
    using present by (auto simp: filter_id_conv)
  show ?thesis
  proof (rule exI [of _ ?stats], intro conjI)
    show "fst (run_fieldtypes cls r) = Inr ?stats" by (rule run)
    show "stats_get ?stats ''added'' = 0" by (simp only: cnt added) simp
    show "stats_get ?stats ''updated'' = int (length (get_field_types cls))"
      by (simp only: cnt updated) (simp add: get_field_types_declared)
  qed
qed


lemma type_call_frame:
  assumes "m \<noteq> n"
    and "\<forall>e \<in> set (rem_field_types r). dict_get e ''name'' = Some (PStr n) \<longrightarrow> e = x"
  shows "\<forall>e \<in> set (rem_field_types
            (apply_call
               (if PStr m \<in> K
                then ReplaceFieldType (dict_set (SolrFieldType_get u) ''name'' (PStr m))
                else AddFieldType (dict_set (SolrFieldType_get u) ''name'' (PStr m))) r)).
           dict_get e ''name'' = Some (PStr n) \<longrightarrow> e = x"
  using assms by (auto simp: dict_get_set)

lemma type_fold_frame:
  "n \<notin> fst ` set ds \<Longrightarrow>
   \<forall>e \<in> set (rem_field_types r). dict_get e ''name'' = Some (PStr n) \<longrightarrow> e = x \<Longrightarrow>
   \<forall>e \<in> set (rem_field_types
          (fold apply_call
             (map (\<lambda>(m, u). if PStr m \<in> K
                     then ReplaceFieldType (dict_set (SolrFieldType_get u) ''name'' (PStr m))
                     else AddFieldType (dict_set (SolrFieldType_get u) ''name'' (PStr m)))
                ds) r)).
      dict_get e ''name'' = Some (PStr n) \<longrightarrow> e = x"
proof (induction ds arbitrary: r)
  case Nil
  then show ?case by simp
next
  case (Cons d ds)
  obtain m u where d: "d = (m, u)" by (cases d)
  have mn: "m \<noteq> n" and rest: "n \<notin> fst ` set ds"
    using Cons.prems(1) d by auto
  from Cons.IH [OF rest type_call_frame [OF mn Cons.prems(2), of K u]]
  show ?case by (simp add: d del: apply_call.simps)
qed

lemma type_call_own:
  assumes "PStr n \<notin> K \<longrightarrow> Some (PStr n) \<notin> set (field_type_names r)"
  shows "\<forall>e \<in> set (rem_field_types
            (apply_call
               (if PStr n \<in> K
                then ReplaceFieldType (dict_set (SolrFieldType_get t) ''name'' (PStr n))
                else AddFieldType (dict_set (SolrFieldType_get t) ''name'' (PStr n))) r)).
           dict_get e ''name'' = Some (PStr n) \<longrightarrow>
             e = dict_set (SolrFieldType_get t) ''name'' (PStr n)"
  using assms by (auto simp: dict_get_set field_type_names_def image_iff)

lemma type_fold_as_declared:
  "distinct (map fst ds) \<Longrightarrow>
   \<forall>(n, t) \<in> set ds. PStr n \<notin> K \<longrightarrow> Some (PStr n) \<notin> set (field_type_names r) \<Longrightarrow>
   \<forall>(n, t) \<in> set ds.
     \<forall>e \<in> set (rem_field_types
          (fold apply_call
             (map (\<lambda>(m, u). if PStr m \<in> K
                     then ReplaceFieldType (dict_set (SolrFieldType_get u) ''name'' (PStr m))
                     else AddFieldType (dict_set (SolrFieldType_get u) ''name'' (PStr m)))
                ds) r)).
       dict_get e ''name'' = Some (PStr n) \<longrightarrow>
         e = dict_set (SolrFieldType_get t) ''name'' (PStr n)"
proof (induction ds arbitrary: r)
  case Nil
  then show ?case by simp
next
  case (Cons d ds)
  obtain n t where d: "d = (n, t)" by (cases d)
  let ?c = "if PStr n \<in> K
            then ReplaceFieldType (dict_set (SolrFieldType_get t) ''name'' (PStr n))
            else AddFieldType (dict_set (SolrFieldType_get t) ''name'' (PStr n))"
  let ?r1 = "apply_call ?c r"
  have fresh: "n \<notin> fst ` set ds" and dist: "distinct (map fst ds)"
    using Cons.prems(1) d by auto
  have own: "PStr n \<notin> K \<longrightarrow> Some (PStr n) \<notin> set (field_type_names r)"
    using Cons.prems(2) d by simp
  have names1: "set (field_type_names ?r1) \<subseteq> insert (Some (PStr n)) (set (field_type_names r))"
    by (auto simp: field_type_names_apply_call dict_get_set simp del: apply_call.simps)
  have rest: "\<forall>(m, u) \<in> set ds. PStr m \<notin> K \<longrightarrow> Some (PStr m) \<notin> set (field_type_names ?r1)"
  proof (clarify)
    fix m u
    assume mu: "(m, u) \<in> set ds" and "PStr m \<notin> K"
      and in1: "Some (PStr m) \<in> set (field_type_names ?r1)"
    with Cons.prems(2) have "Some (PStr m) \<notin> set (field_type_names r)" by auto
    moreover from mu fresh have "m \<noteq> n" by force
    ultimately show False using in1 names1 by auto
  qed
  have head: "\<forall>e \<in> set (rem_field_types
          (fold apply_call
             (map (\<lambda>(m, u). if PStr m \<in> K
                     then ReplaceFieldType (dict_set (SolrFieldType_get u) ''name'' (PStr m))
                     else AddFieldType (dict_set (SolrFieldType_get u) ''name'' (PStr m)))
                ds) ?r1)).
       dict_get e ''name'' = Some (PStr n) \<longrightarrow>
         e = dict_set (SolrFieldType_get t) ''name'' (PStr n)"
    by (rule type_fold_frame [OF fresh type_call_own [OF own]])
  from Cons.IH [OF dist rest] head
  show ?case by (simp add: d del: apply_call.simps)
qed

lemma type_replace_same:
  assumes "\<forall>e \<in> set (rem_field_types r). dict_get e ''name'' = Some (PStr n) \<longrightarrow>
             e = dict_set (SolrFieldType_get t) ''name'' (PStr n)"
  shows "apply_call (ReplaceFieldType (dict_set (SolrFieldType_get t) ''name'' (PStr n))) r = r"
proof -
  have "map (\<lambda>e. if dict_get e ''name''
                      = dict_get (dict_set (SolrFieldType_get t) ''name'' (PStr n)) ''name''
                 then dict_set (SolrFieldType_get t) ''name'' (PStr n) else e)
          (rem_field_types r) = rem_field_types r"
    using assms by (intro map_idI) (simp add: dict_get_set)
  then show ?thesis by simp
qed

lemma type_fold_same:
  "\<forall>(n, t) \<in> set ds. PStr n \<in> K
      \<and> (\<forall>e \<in> set (rem_field_types r). dict_get e ''name'' = Some (PStr n) \<longrightarrow>
             e = dict_set (SolrFieldType_get t) ''name'' (PStr n)) \<Longrightarrow>
   fold apply_call
     (map (\<lambda>(m, u). if PStr m \<in> K
             then ReplaceFieldType (dict_set (SolrFieldType_get u) ''name'' (PStr m))
             else AddFieldType (dict_set (SolrFieldType_get u) ''name'' (PStr m)))
        ds) r = r"
proof (induction ds)
  case Nil
  then show ?case by simp
next
  case (Cons d ds)
  obtain n t where d: "d = (n, t)" by (cases d)
  have "apply_call (ReplaceFieldType (dict_set (SolrFieldType_get t) ''name'' (PStr n))) r = r"
    using Cons.prems d by (intro type_replace_same) simp
  moreover have "PStr n \<in> K" using Cons.prems d by simp
  moreover have "fold apply_call
     (map (\<lambda>(m, u). if PStr m \<in> K
             then ReplaceFieldType (dict_set (SolrFieldType_get u) ''name'' (PStr m))
             else AddFieldType (dict_set (SolrFieldType_get u) ''name'' (PStr m)))
        ds) r = r"
    using Cons.prems by (intro Cons.IH) simp
  ultimately show ?case by (simp add: d del: apply_call.simps)
qed

lemma types_as_declared_after_run:
  assumes "distinct (map fst cls)" and "named_types r"
  shows "\<forall>(n, t) \<in> set (declared_field_types cls).
           \<forall>e \<in> set (rem_field_types (snd (run_fieldtypes cls r))).
             dict_get e ''name'' = Some (PStr n) \<longrightarrow>
               e = dict_set (SolrFieldType_get t) ''name'' (PStr n)"
  unfolding run_fieldtypes_closed [OF assms] snd_conv
  by (rule type_fold_as_declared [OF distinct_declared_field_types [OF assms(1)]]) simp

lemma remote_fixed_by_second_run:
  assumes "distinct (map fst cls)" and "named_types r"
  shows "snd (run_fieldtypes cls (snd (run_fieldtypes cls r))) = snd (run_fieldtypes cls r)"
proof -
  define t1 where "t1 = snd (run_fieldtypes cls r)"
  have n1: "named_types t1"
    unfolding t1_def by (rule named_types_after_run [OF assms])
  have u1: "fieldtypes_settled cls t1"
    unfolding t1_def by (rule fieldtypes_settled_after_run [OF assms])
  have c1: "\<forall>(n, t) \<in> set (declared_field_types cls).
           \<forall>e \<in> set (rem_field_types t1).
             dict_get e ''name'' = Some (PStr n) \<longrightarrow>
               e = dict_set (SolrFieldType_get t) ''name'' (PStr n)"
    unfolding t1_def by (rule types_as_declared_after_run [OF assms])
  have present: "\<forall>(n, t) \<in> set (declared_field_types cls).
                   PStr n \<in> {k. Some k \<in> set (field_type_names t1)}"
    using u1 by (auto simp: fieldtypes_settled_def list_all_iff get_field_types_declared)
  have "snd (run_fieldtypes cls t1) = t1"
    unfolding run_fieldtypes_closed [OF assms(1) n1] snd_conv
    using present c1 by (intro type_fold_same) auto
  then show ?thesis unfolding t1_def .
qed

section \<open>Runs in succession: the counters\<close>

text \<open>
  C6, as stated, fails, for fields and for field types. One declared field and an
  empty remote schema: the first run adds the field, the second run, whose listing now
  holds it, replaces it. One declared field type and an empty remote schema: the first
  run adds the type, the second updates it. In both cases the counters of the two runs
  differ.
\<close>

theorem second_run_differs_counterexample:
  "fst (run_fields [(''title'', Field (SolrStringField_init False False))]
          \<lparr>rem_fields = [], rem_field_types = []\<rparr>) = Inr [(''added'', 1)]
   \<and> fst (run_fields [(''title'', Field (SolrStringField_init False False))]
          (snd (run_fields [(''title'', Field (SolrStringField_init False False))]
                  \<lparr>rem_fields = [], rem_field_types = []\<rparr>))) = Inr [(''replaced'', 1)]
   \<and> fst (run_fieldtypes
          [(''text_en'', FieldType (SolrFieldType_init (PStr ''solr.TextField'')
             \<lparr>tokenizer = PStr ''solr.StandardTokenizerFactory'', filters = PList []\<rparr>))]
          \<lparr>rem_fields = [], rem_field_types = []\<rparr>) = Inr [(''added'', 1)]
   \<and> fst (run_fieldtypes
          [(''text_en'', FieldType (SolrFieldType_init (PStr ''solr.TextField'')
             \<lparr>tokenizer = PStr ''solr.StandardTokenizerFactory'', filters = PList []\<rparr>))]
          (snd (run_fieldtypes
                  [(''text_en'', FieldType (SolrFieldType_init (PStr ''solr.TextField'')
             \<lparr>tokenizer = PStr ''solr.StandardTokenizerFactory'', filters = PList []\<rparr>))]
                  \<lparr>rem_fields = [], rem_field_types = []\<rparr>))) = Inr [(''updated'', 1)]"
  by (simp add: run_fields_def configure_solr_fields_def get_field_names_def getattr_def
                SolrField_get_def SolrStringField_init_def SolrTypedField_init_def
                SolrField_init_def stats_incr_def stats_get_def startswith_def Let_def
                run_fieldtypes_def configure_solr_fieldtypes_def get_field_types_def
                SolrFieldType_get_def SolrFieldType_init_def as_solr_config_def
                dict_get_def dict_set_def dict_del_def dict_has_def)

text \<open>
  C6, amended. With distinct keys in the class dictionary and a remote whose field
  types all carry a hashable name, and with the remote changed by nothing but the runs
  themselves: the second run of field reconciliation has the counters of the first one
  when the remote was settled before the first run; in every case the second run adds
  nothing, deletes nothing and replaces every declared field, a third run has the
  counters of the second, and the second run leaves the remote field names as the
  first run left them. Likewise for field types: the second run has the counters of the
  first when every declared type was already remote; in every case it adds nothing and
  updates every declared type, and a third run has the counters of the second. In
  every case the remote after the second run of field-type reconciliation, its field
  types with their definitions included, is the remote after the first run.
\<close>

theorem reconciliation_settles:
  assumes "distinct (map fst cls)" and "named_types r"
  shows
    "(fields_settled cls r \<longrightarrow>
        fst (run_fields cls (snd (run_fields cls r))) = fst (run_fields cls r))
     \<and> fst (run_fields cls (snd (run_fields cls (snd (run_fields cls r)))))
         = fst (run_fields cls (snd (run_fields cls r)))
     \<and> (\<exists>stats. fst (run_fields cls (snd (run_fields cls r))) = Inr stats
           \<and> stats_get stats ''added'' = 0
           \<and> stats_get stats ''deleted'' = 0
           \<and> stats_get stats ''replaced'' = int (length (get_field_names cls)))
     \<and> field_names (snd (run_fields cls (snd (run_fields cls r))))
         = field_names (snd (run_fields cls r))
     \<and> (fieldtypes_settled cls r \<longrightarrow>
        fst (run_fieldtypes cls (snd (run_fieldtypes cls r))) = fst (run_fieldtypes cls r))
     \<and> fst (run_fieldtypes cls (snd (run_fieldtypes cls (snd (run_fieldtypes cls r)))))
         = fst (run_fieldtypes cls (snd (run_fieldtypes cls r)))
     \<and> (\<exists>stats. fst (run_fieldtypes cls (snd (run_fieldtypes cls r))) = Inr stats
           \<and> stats_get stats ''added'' = 0
           \<and> stats_get stats ''updated'' = int (length (get_field_types cls)))
     \<and> snd (run_fieldtypes cls (snd (run_fieldtypes cls r)))
         = snd (run_fieldtypes cls r)"
proof -
  define r1 where "r1 = snd (run_fields cls r)"
  define t1 where "t1 = snd (run_fieldtypes cls r)"
  have s1: "fields_settled cls r1"
    unfolding r1_def by (rule fields_settled_after_run [OF assms(1)])
  have n1: "named_types t1"
    unfolding t1_def by (rule named_types_after_run [OF assms])
  have u1: "fieldtypes_settled cls t1"
    unfolding t1_def by (rule fieldtypes_settled_after_run [OF assms])
  have a: "fst (run_fields cls (snd (run_fields cls q))) = fst (run_fields cls q)"
    if "fields_settled cls q" for q
    by (rule run_fields_names_cong [OF fields_settled_names [OF assms(1) that]])
  have b: "fst (run_fieldtypes cls (snd (run_fieldtypes cls q))) = fst (run_fieldtypes cls q)"
    if "named_types q" "fieldtypes_settled cls q" for q
    by (rule run_fieldtypes_names_cong
          [OF assms(1) named_types_after_run [OF assms(1) that(1)] that(1)
              fieldtypes_settled_names [OF assms(1) that]])
  have "(fields_settled cls r \<longrightarrow> fst (run_fields cls r1) = fst (run_fields cls r))
     \<and> fst (run_fields cls (snd (run_fields cls r1))) = fst (run_fields cls r1)
     \<and> (\<exists>stats. fst (run_fields cls r1) = Inr stats
           \<and> stats_get stats ''added'' = 0
           \<and> stats_get stats ''deleted'' = 0
           \<and> stats_get stats ''replaced'' = int (length (get_field_names cls)))
     \<and> field_names (snd (run_fields cls r1)) = field_names r1
     \<and> (fieldtypes_settled cls r \<longrightarrow> fst (run_fieldtypes cls t1) = fst (run_fieldtypes cls r))
     \<and> fst (run_fieldtypes cls (snd (run_fieldtypes cls t1))) = fst (run_fieldtypes cls t1)
     \<and> (\<exists>stats. fst (run_fieldtypes cls t1) = Inr stats
           \<and> stats_get stats ''added'' = 0
           \<and> stats_get stats ''updated'' = int (length (get_field_types cls)))
     \<and> snd (run_fieldtypes cls t1) = t1"
  proof (intro conjI impI)
    assume "fields_settled cls r"
    then show "fst (run_fields cls r1) = fst (run_fields cls r)"
      unfolding r1_def by (rule a)
  next
    show "fst (run_fields cls (snd (run_fields cls r1))) = fst (run_fields cls r1)"
      by (rule a [OF s1])
  next
    show "\<exists>stats. fst (run_fields cls r1) = Inr stats
           \<and> stats_get stats ''added'' = 0
           \<and> stats_get stats ''deleted'' = 0
           \<and> stats_get stats ''replaced'' = int (length (get_field_names cls))"
      by (rule fields_settled_counters [OF assms(1) s1])
  next
    show "field_names (snd (run_fields cls r1)) = field_names r1"
      by (rule fields_settled_names [OF assms(1) s1])
  next
    assume "fieldtypes_settled cls r"
    then show "fst (run_fieldtypes cls t1) = fst (run_fieldtypes cls r)"
      unfolding t1_def by (rule b [OF assms(2)])
  next
    show "fst (run_fieldtypes cls (snd (run_fieldtypes cls t1))) = fst (run_fieldtypes cls t1)"
      by (rule b [OF n1 u1])
  next
    show "\<exists>stats. fst (run_fieldtypes cls t1) = Inr stats
           \<and> stats_get stats ''added'' = 0
           \<and> stats_get stats ''updated'' = int (length (get_field_types cls))"
      by (rule fieldtypes_settled_counters [OF assms(1) n1 u1])
  next
    show "snd (run_fieldtypes cls t1) = t1"
      unfolding t1_def by (rule remote_fixed_by_second_run [OF assms])
  qed
  then show ?thesis unfolding r1_def t1_def .
qed

theorem reconciliation_settles_witness:
  "distinct (map fst
     [(''title'', Field (SolrStringField_init False False)),
      (''text_en'', FieldType (SolrFieldType_init (PStr ''solr.TextField'')
         \<lparr>tokenizer = PStr ''solr.StandardTokenizerFactory'', filters = PList []\<rparr>))])
   \<and> named_types
        \<lparr>rem_fields = [\<lparr>rf_name = ''id'', rf_opts = []\<rparr>, \<lparr>rf_name = ''title'', rf_opts = []\<rparr>],
       rem_field_types = [[(''name'', PStr ''text_en''), (''class'', PStr ''solr.TextField'')]]\<rparr>
   \<and> fields_settled
        [(''title'', Field (SolrStringField_init False False)),
      (''text_en'', FieldType (SolrFieldType_init (PStr ''solr.TextField'')
         \<lparr>tokenizer = PStr ''solr.StandardTokenizerFactory'', filters = PList []\<rparr>))]
        \<lparr>rem_fields = [\<lparr>rf_name = ''id'', rf_opts = []\<rparr>, \<lparr>rf_name = ''title'', rf_opts = []\<rparr>],
       rem_field_types = [[(''name'', PStr ''text_en''), (''class'', PStr ''solr.TextField'')]]\<rparr>
   \<and> fieldtypes_settled
        [(''title'', Field (SolrStringField_init False False)),
      (''text_en'', FieldType (SolrFieldType_init (PStr ''solr.TextField'')
         \<lparr>tokenizer = PStr ''solr.StandardTokenizerFactory'', filters = PList []\<rparr>))]
        \<lparr>rem_fields = [\<lparr>rf_name = ''id'', rf_opts = []\<rparr>, \<lparr>rf_name = ''title'', rf_opts = []\<rparr>],
       rem_field_types = [[(''name'', PStr ''text_en''), (''class'', PStr ''solr.TextField'')]]\<rparr>
   \<and> fst (run_fields
        [(''title'', Field (SolrStringField_init False False)),
      (''text_en'', FieldType (SolrFieldType_init (PStr ''solr.TextField'')
         \<lparr>tokenizer = PStr ''solr.StandardTokenizerFactory'', filters = PList []\<rparr>))]
        (snd (run_fields
           [(''title'', Field (SolrStringField_init False False)),
      (''text_en'', FieldType (SolrFieldType_init (PStr ''solr.TextField'')
         \<lparr>tokenizer = PStr ''solr.StandardTokenizerFactory'', filters = PList []\<rparr>))]
           \<lparr>rem_fields = [\<lparr>rf_name = ''id'', rf_opts = []\<rparr>, \<lparr>rf_name = ''title'', rf_opts = []\<rparr>],
       rem_field_types = [[(''name'', PStr ''text_en''), (''class'', PStr ''solr.TextField'')]]\<rparr>)))
      = fst (run_fields
          [(''title'', Field (SolrStringField_init False False)),
      (''text_en'', FieldType (SolrFieldType_init (PStr ''solr.TextField'')
         \<lparr>tokenizer = PStr ''solr.StandardTokenizerFactory'', filters = PList []\<rparr>))]
          \<lparr>rem_fields = [\<lparr>rf_name = ''id'', rf_opts = []\<rparr>, \<lparr>rf_name = ''title'', rf_opts = []\<rparr>],
       rem_field_types = [[(''name'', PStr ''text_en''), (''class'', PStr ''solr.TextField'')]]\<rparr>)
   \<and> fst (run_fieldtypes
        [(''title'', Field (SolrStringField_init False False)),
      (''text_en'', FieldType (SolrFieldType_init (PStr ''solr.TextField'')
         \<lparr>tokenizer = PStr ''solr.StandardTokenizerFactory'', filters = PList []\<rparr>))]
        (snd (run_fieldtypes
           [(''title'', Field (SolrStringField_init False False)),
      (''text_en'', FieldType (SolrFieldType_init (PStr ''solr.TextField'')
         \<lparr>tokenizer = PStr ''solr.StandardTokenizerFactory'', filters = PList []\<rparr>))]
           \<lparr>rem_fields = [\<lparr>rf_name = ''id'', rf_opts = []\<rparr>, \<lparr>rf_name = ''title'', rf_opts = []\<rparr>],
       rem_field_types = [[(''name'', PStr ''text_en''), (''class'', PStr ''solr.TextField'')]]\<rparr>)))
      = fst (run_fieldtypes
          [(''title'', Field (SolrStringField_init False False)),
      (''text_en'', FieldType (SolrFieldType_init (PStr ''solr.TextField'')
         \<lparr>tokenizer = PStr ''solr.StandardTokenizerFactory'', filters = PList []\<rparr>))]
          \<lparr>rem_fields = [\<lparr>rf_name = ''id'', rf_opts = []\<rparr>, \<lparr>rf_name = ''title'', rf_opts = []\<rparr>],
       rem_field_types = [[(''name'', PStr ''text_en''), (''class'', PStr ''solr.TextField'')]]\<rparr>)
   \<and> snd (run_fieldtypes
        [(''title'', Field (SolrStringField_init False False)),
      (''text_en'', FieldType (SolrFieldType_init (PStr ''solr.TextField'')
         \<lparr>tokenizer = PStr ''solr.StandardTokenizerFactory'', filters = PList []\<rparr>))]
        (snd (run_fieldtypes
           [(''title'', Field (SolrStringField_init False False)),
      (''text_en'', FieldType (SolrFieldType_init (PStr ''solr.TextField'')
         \<lparr>tokenizer = PStr ''solr.StandardTokenizerFactory'', filters = PList []\<rparr>))]
           \<lparr>rem_fields = [\<lparr>rf_name = ''id'', rf_opts = []\<rparr>, \<lparr>rf_name = ''title'', rf_opts = []\<rparr>],
       rem_field_types = [[(''name'', PStr ''text_en''), (''class'', PStr ''solr.TextField'')]]\<rparr>)))
      = snd (run_fieldtypes
          [(''title'', Field (SolrStringField_init False False)),
      (''text_en'', FieldType (SolrFieldType_init (PStr ''solr.TextField'')
         \<lparr>tokenizer = PStr ''solr.StandardTokenizerFactory'', filters = PList []\<rparr>))]
          \<lparr>rem_fields = [\<lparr>rf_name = ''id'', rf_opts = []\<rparr>, \<lparr>rf_name = ''title'', rf_opts = []\<rparr>],
       rem_field_types = [[(''name'', PStr ''text_en''), (''class'', PStr ''solr.TextField'')]]\<rparr>)"
proof -
  let ?cls = "[(''title'', Field (SolrStringField_init False False)),
      (''text_en'', FieldType (SolrFieldType_init (PStr ''solr.TextField'')
         \<lparr>tokenizer = PStr ''solr.StandardTokenizerFactory'', filters = PList []\<rparr>))]"
  let ?r = "\<lparr>rem_fields = [\<lparr>rf_name = ''id'', rf_opts = []\<rparr>, \<lparr>rf_name = ''title'', rf_opts = []\<rparr>],
       rem_field_types = [[(''name'', PStr ''text_en''), (''class'', PStr ''solr.TextField'')]]\<rparr>"
  have h: "distinct (map fst ?cls)" by simp
  have names: "field_names ?r = [''id'', ''title'']"
    by (simp add: field_names_def)
  have tnames: "field_type_names ?r = [Some (PStr ''text_en'')]"
    by (simp add: field_type_names_def dict_get_def)
  have nt: "named_types ?r"
    by (simp add: named_types_def tnames)
  have fs: "fields_settled ?cls ?r"
    by (simp add: fields_settled_def names get_field_names_def protected_name_def)
  have ts: "fieldtypes_settled ?cls ?r"
    by (simp add: fieldtypes_settled_def tnames get_field_types_def)
  note t = reconciliation_settles [OF h nt]
  have c1: "fst (run_fields ?cls (snd (run_fields ?cls ?r))) = fst (run_fields ?cls ?r)"
    by (rule t [THEN conjunct1, THEN mp, OF fs])
  have c2: "fst (run_fieldtypes ?cls (snd (run_fieldtypes ?cls ?r)))
              = fst (run_fieldtypes ?cls ?r)"
    by (rule t [THEN conjunct2, THEN conjunct2, THEN conjunct2, THEN conjunct2,
                THEN conjunct1, THEN mp, OF ts])
  have c3: "snd (run_fieldtypes ?cls (snd (run_fieldtypes ?cls ?r)))
              = snd (run_fieldtypes ?cls ?r)"
    by (rule t [THEN conjunct2, THEN conjunct2, THEN conjunct2, THEN conjunct2,
                THEN conjunct2, THEN conjunct2, THEN conjunct2])
  show ?thesis
    by (intro conjI h nt fs ts c1 c2 c3)
qed

end
